theory Spec2Isabelle
  imports Main
begin

section \<open>Data model of \<open>script.js\<close>\<close>

text \<open>
  JavaScript strings are modelled as HOL strings, one \<open>char\<close> per UTF-16 code unit, so the model
  covers the strings whose code units are below 256; every string literal of the
  program that reaches the state or the storage is ASCII.

  A JavaScript number that is written in the source or read from JSON text is modelled as
  an exact decimal \<open>Decimal m k\<close>, standing for \<open>m / 10 ^ k\<close>.

  A quantity is a number that the program adds to. The model covers the quantities that
  are whole numbers and keeps such a quantity as the \<open>int\<close> it denotes. The program adds
  doubles, so an addition of the model is the exact sum rounded to the nearest double,
  \<open>round_to_double\<close> below: exact up to \<open>2 ^ 53\<close>, and rounded to 53 significant bits
  beyond.
\<close>

datatype number = Decimal int nat

text \<open>The object literals of \<open>fetchProducts\<close>: a product has exactly these seven properties.\<close>

record product =
  id' :: string
  name :: string
  description :: string
  price :: number
  image' :: string
  badge :: string
  category :: string

text \<open>A cart entry is \<open>{...product, quantity: 1}\<close>: the product's properties and a quantity.\<close>

record line_item = product +
  quantity :: int

definition new_item :: "product \<Rightarrow> line_item" where
  "new_item p = product.extend p (line_item.fields 1)"

section \<open>The catalog: \<open>generateId\<close> and \<open>fetchProducts\<close>\<close>

text \<open>
  \<open>Number.prototype.toString(36)\<close> on a non-negative integer: the digits \<open>0\<close> to \<open>9\<close> and
  \<open>a\<close> to \<open>z\<close>, most significant first, without leading zeros.
\<close>

definition digit36 :: "nat \<Rightarrow> char" where
  "digit36 d = ''0123456789abcdefghijklmnopqrstuvwxyz'' ! d"

fun toString36 :: "nat \<Rightarrow> string" where
  "toString36 n =
     (if n < 36 then [digit36 n] else toString36 (n div 36) @ [digit36 (n mod 36)])"

declare toString36.simps [simp del]

text \<open>
  \<open>generateId\<close> is \<open>Date.now().toString(36) + Math.random().toString(36).substr(2)\<close>.
  The clock and the random generator are inputs of the model: a reading holds the value
  of \<open>Date.now()\<close> (milliseconds, a non-negative integer) and the text that
  \<open>Math.random().toString(36).substr(2)\<close> produced for this call (the base-36 digits of the
  random fraction; the conversion of the floating-point fraction is not modelled).
\<close>

record reading =
  now :: nat
  random_digits :: string

definition generateId :: "reading \<Rightarrow> string" where
  "generateId r = toString36 (now r) @ random_digits r"

text \<open>
  \<open>fetchProducts\<close> builds the six object literals of \<open>mockProducts\<close>, calling
  \<open>generateId\<close> once for each in the order of the array, waits, and returns the array.
  The six readings are those of the six calls. Prices are the literals of the source.
\<close>

definition fetchProducts ::
  "reading \<Rightarrow> reading \<Rightarrow> reading \<Rightarrow> reading \<Rightarrow> reading \<Rightarrow> reading \<Rightarrow> product list" where
  "fetchProducts r1 r2 r3 r4 r5 r6 =
    [\<lparr>id' = generateId r1,
      name = ''Nox Runner Pro'',
      description = ''Premium running shoes with advanced cushioning technology.'',
      price = Decimal 14999 2,
      image' = ''https://images.unsplash.com/photo-1549298916-b41d501d3772?w=400&h=400&fit=crop&crop=center'',
      badge = ''New'',
      category = ''running''\<rparr>,
     \<lparr>id' = generateId r2,
      name = ''Nox Urban Walker'',
      description = ''Stylish casual shoes perfect for city exploration.'',
      price = Decimal 12999 2,
      image' = ''https://images.unsplash.com/photo-1606107557195-0e29a4b5b4aa?w=400&h=400&fit=crop&crop=center'',
      badge = ''Popular'',
      category = ''casual''\<rparr>,
     \<lparr>id' = generateId r3,
      name = ''Nox Trail Master'',
      description = ''Rugged hiking boots for outdoor adventures.'',
      price = Decimal 17999 2,
      image' = ''https://images.unsplash.com/photo-1544966503-7cc5ac882d5f?w=400&h=400&fit=crop&crop=center'',
      badge = ''Best Seller'',
      category = ''hiking''\<rparr>,
     \<lparr>id' = generateId r4,
      name = ''Nox Classic Oxford'',
      description = ''Elegant dress shoes for formal occasions.'',
      price = Decimal 19999 2,
      image' = ''https://images.unsplash.com/photo-1582897085656-c636d006a246?w=400&h=400&fit=crop&crop=center'',
      badge = ''Premium'',
      category = ''dress''\<rparr>,
     \<lparr>id' = generateId r5,
      name = ''Nox Sport Max'',
      description = ''High-performance athletic shoes for all sports.'',
      price = Decimal 15999 2,
      image' = ''https://images.unsplash.com/photo-1595950653106-6c9ebd614d3a?w=400&h=400&fit=crop&crop=center'',
      badge = ''Limited'',
      category = ''sports''\<rparr>,
     \<lparr>id' = generateId r6,
      name = ''Nox Comfort Plus'',
      description = ''All-day comfort shoes with memory foam insoles.'',
      price = Decimal 11999 2,
      image' = ''https://images.unsplash.com/photo-1560769629-975ec94e6a86?w=400&h=400&fit=crop&crop=center'',
      badge = ''Comfort'',
      category = ''casual''\<rparr>]"

section \<open>The cart: \<open>addToCart\<close> and \<open>updateCartCount\<close>\<close>

text \<open>
  \<open>state.cart.find(item => item.id === product.id)\<close> returns a reference to the first
  element that satisfies the predicate; the model returns its index, so that the
  assignment through the reference becomes an update at that index.
\<close>

fun find_index :: "('a \<Rightarrow> bool) \<Rightarrow> 'a list \<Rightarrow> nat option" where
  "find_index P [] = None"
| "find_index P (x # xs) =
     (if P x then Some 0 else map_option Suc (find_index P xs))"

text \<open>
  Addition of doubles on whole numbers. A double holds a whole number exactly when its
  magnitude is at most \<open>2 ^ 53\<close> or it is a multiple \<open>q * 2 ^ e\<close> of a power of two with a
  factor \<open>q\<close> of 53 bits. The sum of two doubles is the exact sum rounded to the nearest
  double, a tie going to the double whose factor \<open>q\<close> is even. \<open>bitlen a\<close> is the number of
  binary digits of \<open>a\<close>.
\<close>

fun bitlen :: "nat \<Rightarrow> nat" where
  "bitlen n = (if n = 0 then 0 else Suc (bitlen (n div 2)))"

declare bitlen.simps [simp del]

definition round_to_double :: "int \<Rightarrow> int" where
  "round_to_double x =
     (let a = nat \<bar>x\<bar> in
      if a \<le> 2 ^ 53 then x
      else
        let e = bitlen a - 53;
            q = a div 2 ^ e;
            r = a mod 2 ^ e;
            q' = (if 2 * r < 2 ^ e then q
                  else if 2 ^ e < 2 * r then q + 1
                  else if even q then q else q + 1)
        in sgn x * int (q' * 2 ^ e))"

text \<open>
  \<^verbatim>\<open>
  const existingItem = state.cart.find(item => item.id === product.id);
  if (existingItem) { existingItem.quantity += 1; }
  else { state.cart.push({...product, quantity: 1}); }
  \<close>
  The model is the effect of \<open>addToCart\<close> on \<open>state.cart\<close>. The sum \<open>quantity + 1\<close> of a
  double and 1 is never beyond the largest double, whose successor by 1 rounds back to it.
\<close>

definition addToCart :: "product \<Rightarrow> line_item list \<Rightarrow> line_item list" where
  "addToCart p items =
     (case find_index (\<lambda>item. id' item = id' p) items of
        Some i \<Rightarrow>
          items[i := (items ! i)\<lparr>quantity := round_to_double (quantity (items ! i) + 1)\<rparr>]
      | None \<Rightarrow> items @ [new_item p])"

text \<open>A sequence of calls of \<open>addToCart\<close>, in the order of the list.\<close>

definition addAll :: "product list \<Rightarrow> line_item list \<Rightarrow> line_item list" where
  "addAll ps items = foldl (\<lambda>c p. addToCart p c) items ps"

text \<open>
  \<open>state.cart.reduce((sum, item) => sum + item.quantity, 0)\<close>, the number that
  \<open>updateCartCount\<close> writes into the cart badge. The accumulator is a double as well: a
  sum whose rounded value reaches \<open>2 ^ 1024\<close> is \<open>Infinity\<close> (or \<open>-Infinity\<close>), and stays so
  whatever finite quantity is added to it.
\<close>

datatype js_sum = Finite int | PlusInfinity | MinusInfinity

fun js_plus :: "js_sum \<Rightarrow> int \<Rightarrow> js_sum" where
  "js_plus (Finite a) q =
     (let r = round_to_double (a + q) in
      if 2 ^ 1024 \<le> r then PlusInfinity
      else if r \<le> - (2 ^ 1024) then MinusInfinity
      else Finite r)"
| "js_plus PlusInfinity q = PlusInfinity"
| "js_plus MinusInfinity q = MinusInfinity"

definition totalItems :: "line_item list \<Rightarrow> js_sum" where
  "totalItems items = foldl (\<lambda>sum item. js_plus sum (quantity item)) (Finite 0) items"

section \<open>The shared state, the storage and the page\<close>

text \<open>
  \<open>localStorage\<close> is a map from keys to strings: \<open>getItem\<close> returns \<open>null\<close> (here \<open>None\<close>)
  for a key that is absent, \<open>setItem\<close> overwrites. The storage is taken to be available:
  a quota or security exception of \<open>setItem\<close> is not modelled.
\<close>

type_synonym storage = "string \<rightharpoonup> string"

definition getItem :: "storage \<Rightarrow> string \<Rightarrow> string option" where
  "getItem ls key = ls key"

definition setItem :: "string \<Rightarrow> string \<Rightarrow> storage \<Rightarrow> storage" where
  "setItem key v ls = ls(key \<mapsto> v)"

datatype js_error = SyntaxError | TypeError

text \<open>A toast that \<open>showToast\<close> appended to the toast container: its message and its type.\<close>

record toast =
  message :: string
  toast_type :: string

text \<open>The load-more button: the properties that the script writes.\<close>

record button =
  disabled :: bool
  textContent :: string
  display :: string

text \<open>
  The fields of \<open>state\<close>, followed by the parts of the browser that the modelled functions
  read and write: the storage, the \<open>data-theme\<close> attribute of the document element, the
  text of the theme icon (\<open>None\<close> when the page has no such element; the two emoji are
  written \<open>''sun''\<close> and \<open>''moon''\<close>), the toasts shown so far, the load-more button (\<open>None\<close>
  when the page has none), the product cards appended to the grid and the number written
  into the cart badge. The page is taken to contain the elements that the script uses
  without a null check (toast container, product grid, cart badge). Style changes,
  animation classes and the timers that undo them are not part of the model.
\<close>

record world =
  theme :: string
  cart :: "line_item list"
  products :: "product list"
  isLoading :: bool
  currentPage :: int
  productsPerPage :: nat
  localStorage :: storage
  data_theme :: "string option"
  themeIcon :: "string option"
  toasts :: "toast list"
  loadMoreBtn :: "button option"
  productsGrid :: "product list"
  cartCount :: js_sum

definition showToast :: "string \<Rightarrow> string \<Rightarrow> world \<Rightarrow> world" where
  "showToast msg ty w = w\<lparr>toasts := toasts w @ [\<lparr>message = msg, toast_type = ty\<rparr>]\<rparr>"

subsection \<open>Theme\<close>

text \<open>The initialiser \<open>localStorage.getItem('theme') || 'light'\<close>: the empty string is falsy.\<close>

definition initial_theme :: "storage \<Rightarrow> string" where
  "initial_theme ls =
     (case getItem ls ''theme'' of
        None \<Rightarrow> ''light''
      | Some t \<Rightarrow> if t = [] then ''light'' else t)"

text \<open>
  \<^verbatim>\<open>
  setTheme(theme) {
    state.theme = theme;
    document.documentElement.setAttribute('data-theme', theme);
    localStorage.setItem('theme', theme);
    if (elements.themeIcon) { elements.themeIcon.textContent = theme === 'dark' ? sun : moon; }
  }
  \<close>
\<close>

definition setTheme :: "string \<Rightarrow> world \<Rightarrow> world" where
  "setTheme t w =
     w\<lparr>theme := t,
       data_theme := Some t,
       localStorage := setItem ''theme'' t (localStorage w),
       themeIcon := map_option (\<lambda>_. if t = ''dark'' then ''sun'' else ''moon'') (themeIcon w)\<rparr>"

text \<open>\<open>const newTheme = state.theme === 'light' ? 'dark' : 'light'; this.setTheme(newTheme);\<close>\<close>

definition toggleTheme :: "world \<Rightarrow> world" where
  "toggleTheme w = setTheme (if theme w = ''light'' then ''dark'' else ''light'') w"

subsection \<open>Loading products\<close>








section \<open>The contact form: \<open>validateField\<close> and \<open>validateForm\<close>\<close>

text \<open>
  \<open>String.prototype.trim\<close> removes white space and line terminators from both ends. Among
  the code units below 256 these are tab, line feed, vertical tab, form feed, carriage
  return, space and the no-break space; the class \<open>\s\<close> of a regular expression is the
  same set.
\<close>

definition is_js_space :: "char \<Rightarrow> bool" where
  "is_js_space c = (c \<in> set [CHR 0x09, CHR 0x0A, CHR 0x0B, CHR 0x0C, CHR 0x0D, CHR 0x20, CHR 0xA0])"

definition trim :: "string \<Rightarrow> string" where
  "trim s = rev (dropWhile is_js_space (rev (dropWhile is_js_space s)))"

text \<open>
  \<open>emailRegex.test(value)\<close> for \<open>/^[^\s@]+@[^\s@]+\.[^\s@]+$/\<close>. The functions follow the
  expression from left to right, one function for each position in it, and try both
  ways where a character can continue a class or end it.
\<close>

definition not_space_or_at :: "char \<Rightarrow> bool" where
  "not_space_or_at c = (\<not> is_js_space c \<and> c \<noteq> CHR ''@'')"

text \<open>\<open>[^\s@]+$\<close>\<close>

definition match_tld :: "string \<Rightarrow> bool" where
  "match_tld s = (s \<noteq> [] \<and> list_all not_space_or_at s)"

text \<open>\<open>[^\s@]*\.[^\s@]+$\<close>, after the first character of the second class.\<close>

fun match_domain_rest :: "string \<Rightarrow> bool" where
  "match_domain_rest [] = False"
| "match_domain_rest (c # cs) =
     ((c = CHR ''.'' \<and> match_tld cs) \<or> (not_space_or_at c \<and> match_domain_rest cs))"

text \<open>\<open>[^\s@]+\.[^\s@]+$\<close>\<close>

definition match_domain :: "string \<Rightarrow> bool" where
  "match_domain s = (case s of [] \<Rightarrow> False | c # cs \<Rightarrow> not_space_or_at c \<and> match_domain_rest cs)"

text \<open>\<open>[^\s@]*@[^\s@]+\.[^\s@]+$\<close>, after the first character of the first class.\<close>

fun match_local_rest :: "string \<Rightarrow> bool" where
  "match_local_rest [] = False"
| "match_local_rest (c # cs) =
     ((c = CHR ''@'' \<and> match_domain cs) \<or> (not_space_or_at c \<and> match_local_rest cs))"

definition emailRegex_test :: "string \<Rightarrow> bool" where
  "emailRegex_test s =
     (case s of [] \<Rightarrow> False | c # cs \<Rightarrow> not_space_or_at c \<and> match_local_rest cs)"

text \<open>
  An \<open>input\<close> or \<open>textarea\<close> of the contact form: its \<open>name\<close>, its \<open>value\<close>, whether it has the
  attribute \<open>required\<close>, and whether its class list holds \<open>error\<close>.
\<close>

record input_field =
  field_name :: string
  field_value :: string
  field_required :: bool
  field_error :: bool

text \<open>
  An element that displays the error of a field: its text and whether its class list
  holds \<open>show\<close>. The page maps element ids to these elements.
\<close>

record error_element =
  error_text :: string
  error_show :: bool

type_synonym error_elements = "string \<rightharpoonup> error_element"

text \<open>
  \<open>labels[fieldName] || fieldName\<close> for the object literal \<open>{name: 'Name', email: 'Email',
  message: 'Message'}\<close>. The lookup \<open>labels[fieldName]\<close> finds the three properties of the
  literal and, for any other name, the properties that the literal inherits from
  \<open>Object.prototype\<close>, such as \<open>toString\<close> or \<open>constructor\<close>. Their values are functions
  and objects, which are truthy, and the template literal of \<open>validateField\<close> turns the
  label into text. The inherited properties are an input of the model: \<open>inherited\<close> maps
  the name of each of them to the text that the conversion of its value to a string
  gives, which for a function is up to the engine.
\<close>

definition getFieldLabel :: "(string \<rightharpoonup> string) \<Rightarrow> string \<Rightarrow> string" where
  "getFieldLabel inherited fieldName =
     (if fieldName = ''name'' then ''Name''
      else if fieldName = ''email'' then ''Email''
      else if fieldName = ''message'' then ''Message''
      else (case inherited fieldName of
              Some label \<Rightarrow> label
            | None \<Rightarrow> fieldName))"

text \<open>
  The properties of \<open>Object.prototype\<close> in a browser, each with its text as Chrome and
  Node print it; \<open>__proto__\<close> yields \<open>Object.prototype\<close> itself.
\<close>

definition Object_prototype :: "string \<rightharpoonup> string" where
  "Object_prototype =
     map_of
       [(''constructor'', ''function Object() { [native code] }''),
        (''__defineGetter__'', ''function __defineGetter__() { [native code] }''),
        (''__defineSetter__'', ''function __defineSetter__() { [native code] }''),
        (''hasOwnProperty'', ''function hasOwnProperty() { [native code] }''),
        (''__lookupGetter__'', ''function __lookupGetter__() { [native code] }''),
        (''__lookupSetter__'', ''function __lookupSetter__() { [native code] }''),
        (''isPrototypeOf'', ''function isPrototypeOf() { [native code] }''),
        (''propertyIsEnumerable'', ''function propertyIsEnumerable() { [native code] }''),
        (''toString'', ''function toString() { [native code] }''),
        (''valueOf'', ''function valueOf() { [native code] }''),
        (''__proto__'', ''[object Object]''),
        (''toLocaleString'', ''function toLocaleString() { [native code] }'')]"

text \<open>
  The checks of \<open>validateField\<close>, in the order of the source; each one that fails
  overwrites \<open>isValid\<close> and \<open>errorMessage\<close>. The result is the pair of the two variables at
  the end of the checks. \<open>!value\<close> and \<open>value\<close> test the trimmed string for emptiness.
\<close>

definition checkField :: "(string \<rightharpoonup> string) \<Rightarrow> input_field \<Rightarrow> bool \<times> string" where
  "checkField inherited field =
     (let val = trim (field_value field);
          fieldName = field_name field;
          r0 = (True, []);
          r1 = (if field_required field \<and> val = []
                then (False, getFieldLabel inherited fieldName @ '' is required.'') else r0);
          r2 = (if fieldName = ''email'' \<and> val \<noteq> [] \<and> \<not> emailRegex_test val
                then (False, ''Please enter a valid email address.'') else r1);
          r3 = (if fieldName = ''name'' \<and> val \<noteq> [] \<and> length val < 2
                then (False, ''Name must be at least 2 characters long.'') else r2);
          r4 = (if fieldName = ''message'' \<and> val \<noteq> [] \<and> length val < 10
                then (False, ''Message must be at least 10 characters long.'') else r3)
      in r4)"

text \<open>
  \<^verbatim>\<open>
  clearFieldError(field) {
    field.classList.remove('error');
    const errorElement = document.getElementById(`${field.name}-error`);
    if (errorElement) { errorElement.classList.remove('show'); }
  }
  \<close>
\<close>

definition clearFieldError :: "input_field \<Rightarrow> error_elements \<Rightarrow> input_field \<times> error_elements" where
  "clearFieldError field es =
     (field\<lparr>field_error := False\<rparr>,
      (case es (field_name field @ ''-error'') of
         None \<Rightarrow> es
       | Some e \<Rightarrow> es(field_name field @ ''-error'' \<mapsto> e\<lparr>error_show := False\<rparr>)))"

text \<open>
  \<^verbatim>\<open>
  showFieldError(field, message) {
    const errorElement = document.getElementById(`${field.name}-error`);
    if (message) {
      field.classList.add('error');
      if (errorElement) { errorElement.textContent = message; errorElement.classList.add('show'); }
    } else { this.clearFieldError(field); }
  }
  \<close>
\<close>

definition showFieldError ::
  "input_field \<Rightarrow> string \<Rightarrow> error_elements \<Rightarrow> input_field \<times> error_elements" where
  "showFieldError field msg es =
     (if msg \<noteq> [] then
        (field\<lparr>field_error := True\<rparr>,
         (case es (field_name field @ ''-error'') of
            None \<Rightarrow> es
          | Some e \<Rightarrow> es(field_name field @ ''-error'' \<mapsto> \<lparr>error_text = msg, error_show = True\<rparr>)))
      else clearFieldError field es)"

text \<open>
  \<open>validateField\<close>: the checks, then \<open>this.showFieldError(field, errorMessage)\<close>, then
  \<open>return isValid\<close>. The model returns the result together with the field and the error
  elements as the call leaves them.
\<close>

definition validateField ::
  "(string \<rightharpoonup> string) \<Rightarrow> input_field \<Rightarrow> error_elements \<Rightarrow>
     bool \<times> input_field \<times> error_elements" where
  "validateField inherited field es =
     (let (isValid, errorMessage) = checkField inherited field
      in (isValid, showFieldError field errorMessage es))"

text \<open>
  \<^verbatim>\<open>
  validateForm() {
    const inputs = elements.contactForm.querySelectorAll('input[required], textarea[required]');
    let isValid = true;
    inputs.forEach(input => { if (!this.validateField(input)) { isValid = false; } });
    return isValid;
  }
  \<close>
  The loop runs over the fields of the form in document order; the selector keeps those
  with the attribute \<open>required\<close>. The last argument is the variable \<open>isValid\<close>.
\<close>

fun validateFields ::
  "(string \<rightharpoonup> string) \<Rightarrow> input_field list \<Rightarrow> error_elements \<Rightarrow> bool \<Rightarrow>
     bool \<times> input_field list \<times> error_elements" where
  "validateFields inherited [] es isValid = (isValid, [], es)"
| "validateFields inherited (input # inputs) es isValid =
     (if field_required input then
        (let (ok, input', es') = validateField inherited input es;
             (res, inputs', es'') =
               validateFields inherited inputs es' (if \<not> ok then False else isValid)
         in (res, input' # inputs', es''))
      else
        (let (res, inputs', es'') = validateFields inherited inputs es isValid
         in (res, input # inputs', es'')))"

record form =
  form_fields :: "input_field list"
  form_errors :: error_elements

definition validateForm :: "(string \<rightharpoonup> string) \<Rightarrow> form \<Rightarrow> bool \<times> form" where
  "validateForm inherited f =
     (let (res, inputs', es') = validateFields inherited (form_fields f) (form_errors f) True
      in (res, \<lparr>form_fields = inputs', form_errors = es'\<rparr>))"

section \<open>JSON values, \<open>JSON.stringify\<close> and \<open>JSON.parse\<close>\<close>

text \<open>
  The values that \<open>JSON.parse\<close> returns. An object is the list of its properties in the
  order of their creation. (The engine lists properties whose names are array indices
  first; such names do not occur in this program and are not treated specially.)
\<close>

datatype json =
    JNull
  | JBool bool
  | JNum number
  | JStr string
  | JArr "json list"
  | JObj "(string \<times> json) list"

text \<open>
  A number has one decimal notation without trailing zeros in the fraction; \<open>normalize_number\<close>
  yields it. \<open>Decimal 150 1\<close> and \<open>Decimal 15 0\<close> both stand for 15.
\<close>

fun normalize_dec :: "int \<Rightarrow> nat \<Rightarrow> number" where
  "normalize_dec m 0 = Decimal m 0"
| "normalize_dec m (Suc k) =
     (if m mod 10 = 0 then normalize_dec (m div 10) k else Decimal m (Suc k))"

fun normalize_number :: "number \<Rightarrow> number" where
  "normalize_number (Decimal m k) = normalize_dec m k"

text \<open>
  Truthiness of a value, as the operator \<open>||\<close> tests it: \<open>null\<close>, \<open>false\<close>, zero and the
  empty string are falsy, every other value (every array and object) is truthy. The
  number that the program tests is the double nearest to the decimal \<open>m / 10 ^ k\<close>; it is
  zero exactly when the magnitude of the decimal is at most \<open>2 ^ - 1075\<close>, half of the
  smallest positive double.
\<close>

fun js_truthy :: "json \<Rightarrow> bool" where
  "js_truthy JNull = False"
| "js_truthy (JBool b) = b"
| "js_truthy (JNum (Decimal m k)) = (10 ^ k < \<bar>m\<bar> * 2 ^ 1075)"
| "js_truthy (JStr s) = (s \<noteq> [])"
| "js_truthy (JArr vs) = True"
| "js_truthy (JObj ms) = True"

subsection \<open>\<open>JSON.stringify\<close>\<close>

abbreviation dquote :: char where
  "dquote \<equiv> CHR 0x22"

abbreviation backslash :: char where
  "backslash \<equiv> CHR 0x5C"

definition hex_digit :: "nat \<Rightarrow> char" where
  "hex_digit d = ''0123456789abcdef'' ! d"

text \<open>
  The escapes of \<open>QuoteJSONString\<close>: the quotation mark, the backslash and the control
  characters are escaped, the latter with a short escape where there is one and with
  \<open>\u00XX\<close> otherwise; every other code unit below 256 is copied.
\<close>

definition quote_char :: "char \<Rightarrow> string" where
  "quote_char c =
     (if c = dquote then [backslash, dquote]
      else if c = backslash then [backslash, backslash]
      else if c = CHR 0x08 then [backslash, CHR ''b'']
      else if c = CHR 0x0C then [backslash, CHR ''f'']
      else if c = CHR 0x0A then [backslash, CHR ''n'']
      else if c = CHR 0x0D then [backslash, CHR ''r'']
      else if c = CHR 0x09 then [backslash, CHR ''t'']
      else if (of_char c :: nat) < 32 then
        [backslash, CHR ''u'', CHR ''0'', CHR ''0'',
         hex_digit ((of_char c :: nat) div 16), hex_digit ((of_char c :: nat) mod 16)]
      else [c])"

definition quote :: "string \<Rightarrow> string" where
  "quote s = dquote # concat (map quote_char s) @ [dquote]"

definition digit_char :: "nat \<Rightarrow> char" where
  "digit_char d = ''0123456789'' ! d"

fun digits :: "nat \<Rightarrow> string" where
  "digits n = (if n < 10 then [digit_char n] else digits (n div 10) @ [digit_char (n mod 10)])"

declare digits.simps [simp del]

text \<open>
  \<open>Number::toString\<close> for a decimal: the sign, the digits of the integer part and, when
  there is a fraction, a point and the digits of the fraction. (The engine switches to
  exponent notation from \<open>1e21\<close> on and below \<open>1e-6\<close>; such numbers are not in the range
  the model stands for.)
\<close>

definition number_toString :: "number \<Rightarrow> string" where
  "number_toString x =
     (case normalize_number x of
        Decimal m k \<Rightarrow>
          (if m < 0 then ''-'' else []) @
          (if k = 0 then digits (nat \<bar>m\<bar>)
           else digits (nat \<bar>m\<bar> div 10 ^ k) @ ''.'' @
                replicate (k - length (digits (nat \<bar>m\<bar> mod 10 ^ k))) CHR ''0'' @
                digits (nat \<bar>m\<bar> mod 10 ^ k)))"

text \<open>\<open>JSON.stringify\<close> without indentation: no white space between the tokens.\<close>

fun JSON_stringify :: "json \<Rightarrow> string"
  and stringify_elements :: "json list \<Rightarrow> string"
  and stringify_members :: "(string \<times> json) list \<Rightarrow> string" where
  "JSON_stringify JNull = ''null''"
| "JSON_stringify (JBool b) = (if b then ''true'' else ''false'')"
| "JSON_stringify (JNum x) = number_toString x"
| "JSON_stringify (JStr s) = quote s"
| "JSON_stringify (JArr vs) = ''['' @ stringify_elements vs @ '']''"
| "JSON_stringify (JObj ms) = ''{'' @ stringify_members ms @ ''}''"
| "stringify_elements [] = []"
| "stringify_elements (v # vs) =
     JSON_stringify v @ (if vs = [] then [] else '','' @ stringify_elements vs)"
| "stringify_members [] = []"
| "stringify_members ((k, v) # ms) =
     quote k @ '':'' @ JSON_stringify v @ (if ms = [] then [] else '','' @ stringify_members ms)"

subsection \<open>\<open>JSON.parse\<close>\<close>

text \<open>
  The result of parsing a prefix of a text: the value and the rest of the text, or the
  text is not JSON (\<open>JSON.parse\<close> throws a \<open>SyntaxError\<close>), or the model does not decide:
  the text has an escape \<open>\uXXXX\<close> for a code unit from 256 on, which the strings of the
  model do not hold, or the parser ran out of its recursion budget.
\<close>

datatype 'a parsed = Parsed 'a string | Malformed | Unmodelled

definition is_json_space :: "char \<Rightarrow> bool" where
  "is_json_space c = (c \<in> set [CHR 0x20, CHR 0x09, CHR 0x0A, CHR 0x0D])"

definition skip_ws :: "string \<Rightarrow> string" where
  "skip_ws s = dropWhile is_json_space s"

definition is_digit :: "char \<Rightarrow> bool" where
  "is_digit c = (c \<in> set ''0123456789'')"

definition digit_value :: "char \<Rightarrow> nat" where
  "digit_value c = of_char c - 48"

definition digits_value :: "string \<Rightarrow> nat" where
  "digits_value ds = foldl (\<lambda>a c. 10 * a + digit_value c) 0 ds"

definition hex_value :: "char \<Rightarrow> nat option" where
  "hex_value c =
     (if is_digit c then Some (of_char c - 48)
      else if c \<in> set ''abcdef'' then Some (of_char c - 87)
      else if c \<in> set ''ABCDEF'' then Some (of_char c - 55)
      else None)"

definition hex4 :: "char \<Rightarrow> char \<Rightarrow> char \<Rightarrow> char \<Rightarrow> nat option" where
  "hex4 h1 h2 h3 h4 =
     (case (hex_value h1, hex_value h2, hex_value h3, hex_value h4) of
        (Some a, Some b, Some c, Some d) \<Rightarrow> Some (((a * 16 + b) * 16 + c) * 16 + d)
      | _ \<Rightarrow> None)"

text \<open>The character that follows a backslash in a short escape, and what it stands for.\<close>

definition unescape :: "char \<Rightarrow> char option" where
  "unescape e =
     (if e = dquote then Some dquote
      else if e = backslash then Some backslash
      else if e = CHR ''/'' then Some CHR ''/''
      else if e = CHR ''b'' then Some (CHR 0x08)
      else if e = CHR ''f'' then Some (CHR 0x0C)
      else if e = CHR ''n'' then Some (CHR 0x0A)
      else if e = CHR ''r'' then Some (CHR 0x0D)
      else if e = CHR ''t'' then Some (CHR 0x09)
      else None)"

definition cons_parsed :: "char \<Rightarrow> string parsed \<Rightarrow> string parsed" where
  "cons_parsed c r = (case r of Parsed s rest \<Rightarrow> Parsed (c # s) rest | Malformed \<Rightarrow> Malformed
                      | Unmodelled \<Rightarrow> Unmodelled)"

text \<open>
  The characters of a string literal after its opening quotation mark, up to and
  including the closing one. A control character must be escaped.
\<close>

fun parse_string_chars :: "string \<Rightarrow> string parsed" where
  "parse_string_chars [] = Malformed"
| "parse_string_chars (c # cs) =
     (if c = dquote then Parsed [] cs
      else if c = backslash then
        (case cs of
           [] \<Rightarrow> Malformed
         | e # r \<Rightarrow>
             if e = CHR ''u'' then
               (case r of
                  h1 # h2 # h3 # h4 # r' \<Rightarrow>
                    (case hex4 h1 h2 h3 h4 of
                       None \<Rightarrow> Malformed
                     | Some n \<Rightarrow>
                         if n < 256 then cons_parsed (char_of n) (parse_string_chars r')
                         else Unmodelled)
                | _ \<Rightarrow> Malformed)
             else
               (case unescape e of
                  None \<Rightarrow> Malformed
                | Some ch \<Rightarrow> cons_parsed ch (parse_string_chars r)))
      else if (of_char c :: nat) < 32 then Malformed
      else cons_parsed c (parse_string_chars cs))"

text \<open>
  A number literal: an optional minus sign, an integer part (a single \<open>0\<close>, or digits that
  do not start with \<open>0\<close>), an optional fraction (a point and at least one digit) and an
  optional exponent (\<open>e\<close> or \<open>E\<close>, an optional sign and at least one digit). Each reader
  returns what it read and the rest of the text. The value is the decimal that the
  literal denotes, exactly. The program holds the double nearest to this decimal; the
  test that the model makes on a parsed number, \<open>js_truthy\<close>, is the one of that double.
\<close>

definition read_digits :: "string \<Rightarrow> string \<times> string" where
  "read_digits s = (takeWhile is_digit s, dropWhile is_digit s)"

definition read_int_part :: "string \<Rightarrow> string \<times> string" where
  "read_int_part s = (if s \<noteq> [] \<and> hd s = CHR ''0'' then (''0'', tl s) else read_digits s)"

definition read_fraction :: "string \<Rightarrow> (string \<times> string) option" where
  "read_fraction s =
     (if s \<noteq> [] \<and> hd s = CHR ''.'' then
        (case read_digits (tl s) of (fd, r) \<Rightarrow> if fd = [] then None else Some (fd, r))
      else Some ([], s))"

definition read_exponent :: "string \<Rightarrow> (int \<times> string) option" where
  "read_exponent s =
     (if s \<noteq> [] \<and> (hd s = CHR ''e'' \<or> hd s = CHR ''E'') then
        (let s1 = tl s;
             neg = (s1 \<noteq> [] \<and> hd s1 = CHR ''-'');
             s2 = (if s1 \<noteq> [] \<and> (hd s1 = CHR ''-'' \<or> hd s1 = CHR ''+'') then tl s1 else s1)
         in case read_digits s2 of
              (ed, r) \<Rightarrow>
                if ed = [] then None
                else Some (if neg then - int (digits_value ed) else int (digits_value ed), r))
      else Some (0, s))"

definition parse_number :: "string \<Rightarrow> (number \<times> string) option" where
  "parse_number s =
     (let neg = (s \<noteq> [] \<and> hd s = CHR ''-'');
          s1 = (if neg then tl s else s)
      in case read_int_part s1 of
           (ip, s2) \<Rightarrow>
             if ip = [] then None
             else
               (case read_fraction s2 of
                  None \<Rightarrow> None
                | Some (fd, s3) \<Rightarrow>
                    (case read_exponent s3 of
                       None \<Rightarrow> None
                     | Some (e, s4) \<Rightarrow>
                         (let mant = (if neg then - int (digits_value (ip @ fd))
                                      else int (digits_value (ip @ fd)));
                              k = int (length fd)
                          in Some (if k \<le> e then Decimal (mant * 10 ^ nat (e - k)) 0
                                   else normalize_dec mant (nat (k - e)), s4)))))"

text \<open>
  Duplicate names in an object: the last value wins, at the position of the first
  occurrence.
\<close>

fun put :: "string \<Rightarrow> json \<Rightarrow> (string \<times> json) list \<Rightarrow> (string \<times> json) list" where
  "put k v [] = [(k, v)]"
| "put k v ((k', v') # ms) = (if k = k' then (k, v) # ms else (k', v') # put k v ms)"

text \<open>
  The parser descends along the grammar. The first argument bounds the depth of the
  recursion; \<open>JSON_parse\<close> starts with twice the length of the text plus one, and a
  parser that reaches the bound answers \<open>Unmodelled\<close>. \<open>parse_elements\<close> reads the elements of an array after its opening bracket,
  \<open>parse_members\<close> the members of an object after its opening brace; both take the
  elements read so far.
\<close>

fun parse_value :: "nat \<Rightarrow> string \<Rightarrow> json parsed"
  and parse_elements :: "nat \<Rightarrow> json list \<Rightarrow> string \<Rightarrow> json list parsed"
  and parse_members ::
    "nat \<Rightarrow> (string \<times> json) list \<Rightarrow> string \<Rightarrow> (string \<times> json) list parsed" where
  "parse_value 0 s = Unmodelled"
| "parse_value (Suc n) s =
     (case skip_ws s of
        [] \<Rightarrow> Malformed
      | c # cs \<Rightarrow>
          if c = CHR ''['' then
            (if skip_ws cs \<noteq> [] \<and> hd (skip_ws cs) = CHR '']''
             then Parsed (JArr []) (tl (skip_ws cs))
             else (case parse_elements n [] cs of
                     Parsed vs r \<Rightarrow> Parsed (JArr vs) r
                   | Malformed \<Rightarrow> Malformed
                   | Unmodelled \<Rightarrow> Unmodelled))
          else if c = CHR ''{'' then
            (if skip_ws cs \<noteq> [] \<and> hd (skip_ws cs) = CHR ''}''
             then Parsed (JObj []) (tl (skip_ws cs))
             else (case parse_members n [] cs of
                     Parsed ms r \<Rightarrow> Parsed (JObj ms) r
                   | Malformed \<Rightarrow> Malformed
                   | Unmodelled \<Rightarrow> Unmodelled))
          else if c = dquote then
            (case parse_string_chars cs of
               Parsed str r \<Rightarrow> Parsed (JStr str) r
             | Malformed \<Rightarrow> Malformed
             | Unmodelled \<Rightarrow> Unmodelled)
          else if c = CHR ''-'' \<or> is_digit c then
            (case parse_number (c # cs) of
               None \<Rightarrow> Malformed
             | Some (x, r) \<Rightarrow> Parsed (JNum x) r)
          else if take 4 (c # cs) = ''null'' then Parsed JNull (drop 4 (c # cs))
          else if take 4 (c # cs) = ''true'' then Parsed (JBool True) (drop 4 (c # cs))
          else if take 5 (c # cs) = ''false'' then Parsed (JBool False) (drop 5 (c # cs))
          else Malformed)"
| "parse_elements 0 acc s = Unmodelled"
| "parse_elements (Suc n) acc s =
     (case parse_value n s of
        Parsed v r \<Rightarrow>
          (case skip_ws r of
             [] \<Rightarrow> Malformed
           | d # r' \<Rightarrow>
               if d = CHR '','' then parse_elements n (acc @ [v]) r'
               else if d = CHR '']'' then Parsed (acc @ [v]) r'
               else Malformed)
      | Malformed \<Rightarrow> Malformed
      | Unmodelled \<Rightarrow> Unmodelled)"
| "parse_members 0 acc s = Unmodelled"
| "parse_members (Suc n) acc s =
     (case skip_ws s of
        [] \<Rightarrow> Malformed
      | q # cs \<Rightarrow>
          if q \<noteq> dquote then Malformed
          else
            (case parse_string_chars cs of
               Parsed key r \<Rightarrow>
                 (case skip_ws r of
                    [] \<Rightarrow> Malformed
                  | colon # r1 \<Rightarrow>
                      if colon \<noteq> CHR '':'' then Malformed
                      else
                        (case parse_value n r1 of
                           Parsed v r2 \<Rightarrow>
                             (case skip_ws r2 of
                                [] \<Rightarrow> Malformed
                              | d # r3 \<Rightarrow>
                                  if d = CHR '','' then parse_members n (put key v acc) r3
                                  else if d = CHR ''}'' then Parsed (put key v acc) r3
                                  else Malformed)
                         | Malformed \<Rightarrow> Malformed
                         | Unmodelled \<Rightarrow> Unmodelled))
             | Malformed \<Rightarrow> Malformed
             | Unmodelled \<Rightarrow> Unmodelled))"

text \<open>
  \<open>JSON.parse(text)\<close>: one value, with white space allowed around it and nothing else
  after it.
\<close>

definition JSON_parse :: "string \<Rightarrow> json parsed" where
  "JSON_parse text =
     (case parse_value (Suc (2 * length text)) text of
        Parsed v r \<Rightarrow> if skip_ws r = [] then Parsed v [] else Malformed
      | Malformed \<Rightarrow> Malformed
      | Unmodelled \<Rightarrow> Unmodelled)"

section \<open>Persisting and loading the cart\<close>

text \<open>
  A cart of the program as the value that \<open>JSON.stringify\<close> receives: an array of objects
  with the properties in the order in which the object literals of \<open>fetchProducts\<close> and of
  \<open>addToCart\<close> create them.
\<close>

definition item_to_json :: "line_item \<Rightarrow> json" where
  "item_to_json item =
     JObj [(''id'', JStr (id' item)),
           (''name'', JStr (name item)),
           (''description'', JStr (description item)),
           (''price'', JNum (normalize_number (price item))),
           (''image'', JStr (image' item)),
           (''badge'', JStr (badge item)),
           (''category'', JStr (category item)),
           (''quantity'', JNum (Decimal (quantity item) 0))]"

definition cart_to_json :: "line_item list \<Rightarrow> json" where
  "cart_to_json items = JArr (map item_to_json items)"

text \<open>\<open>saveCart() { localStorage.setItem('cart', JSON.stringify(state.cart)); }\<close>\<close>

definition saveCart :: "world \<Rightarrow> world" where
  "saveCart w =
     w\<lparr>localStorage := setItem ''cart'' (JSON_stringify (cart_to_json (cart w))) (localStorage w)\<rparr>"

text \<open>The part of \<open>updateCartCount\<close> that writes the badge.\<close>

definition updateCartCount :: "world \<Rightarrow> world" where
  "updateCartCount w = w\<lparr>cartCount := totalItems (cart w)\<rparr>"

text \<open>
  The method \<open>productManager.addToCart(product)\<close>: the update of \<open>state.cart\<close>, then
  \<open>this.updateCartCount(); this.saveCart(); themeManager.showToast(...)\<close>.
\<close>

definition productManager_addToCart :: "product \<Rightarrow> world \<Rightarrow> world" where
  "productManager_addToCart p w =
     showToast (name p @ '' added to cart'') ''success''
       (saveCart (updateCartCount (w\<lparr>cart := addToCart p (cart w)\<rparr>)))"

text \<open>
  The outcome of evaluating the initialiser of \<open>state.cart\<close>,
  \<open>JSON.parse(localStorage.getItem('cart')) || []\<close>, when the script starts: a value, or an
  exception that nothing catches, or undecided by the model. \<open>getItem\<close> returns \<open>null\<close> for
  an absent key, and \<open>JSON.parse\<close> converts its argument to a string first, so that an
  absent key is parsed as the text \<open>null\<close>.
\<close>

datatype 'a outcome = Returns 'a | Throws js_error | Undecided

definition initial_cart :: "storage \<Rightarrow> json outcome" where
  "initial_cart ls =
     (case JSON_parse (case getItem ls ''cart'' of None \<Rightarrow> ''null'' | Some text \<Rightarrow> text) of
        Parsed v r \<Rightarrow> Returns (if js_truthy v then v else JArr [])
      | Malformed \<Rightarrow> Throws SyntaxError
      | Unmodelled \<Rightarrow> Undecided)"

text \<open>
  The pairs of \<open>item.id\<close> and \<open>item.quantity\<close> of the elements of a cart value, in the order
  of the array; \<open>None\<close> stands for \<open>undefined\<close>.
\<close>

definition id_quantity_pairs :: "json \<Rightarrow> (json option \<times> json option) list" where
  "id_quantity_pairs v =
     (case v of
        JArr items \<Rightarrow>
          map (\<lambda>item. case item of
                         JObj ms \<Rightarrow> (map_of ms ''id'', map_of ms ''quantity'')
                       | _ \<Rightarrow> (None, None)) items
      | _ \<Rightarrow> [])"

section \<open>Properties of the cart\<close>

lemma find_index_None: "find_index P xs = None \<longleftrightarrow> (\<forall>x \<in> set xs. \<not> P x)"
  by (induction xs) auto

lemma find_index_Some:
  "find_index P xs = Some i \<Longrightarrow>
     i < length xs \<and> P (xs ! i) \<and> (\<forall>j < i. \<not> P (xs ! j))"
proof (induction xs arbitrary: i)
  case Nil
  then show ?case by simp
next
  case (Cons x xs)
  show ?case
  proof (cases "P x")
    case True
    with Cons.prems show ?thesis by simp
  next
    case False
    with Cons.prems obtain k where k: "find_index P xs = Some k" "i = Suc k"
      by auto
    from Cons.IH [OF k(1)] False k(2) show ?thesis
      by (auto simp: less_Suc_eq_0_disj)
  qed
qed

lemma id_new_item [simp]: "id' (new_item p) = id' p"
  by (simp add: new_item_def product.defs)

lemma quantity_new_item [simp]: "quantity (new_item p) = 1"
  by (simp add: new_item_def product.defs line_item.defs)

lemma round_to_double_exact: "\<bar>x\<bar> \<le> 2 ^ 53 \<Longrightarrow> round_to_double x = x"
  by (simp add: round_to_double_def nat_le_iff)

lemma bitlen_bounds: "2 ^ k \<le> n \<Longrightarrow> n < 2 ^ Suc k \<Longrightarrow> bitlen n = Suc k"
proof (induction k arbitrary: n)
  case 0
  then have "n = 1" by simp
  then show ?case by (simp add: bitlen.simps [of "Suc 0"] bitlen.simps [of 0])
next
  case (Suc k)
  from Suc.prems have "2 ^ k \<le> n div 2" "n div 2 < 2 ^ Suc k" "n \<noteq> 0"
    by auto
  from Suc.IH [OF this(1,2)] this(3) show ?case
    by (subst bitlen.simps) simp
qed

lemma round_to_double_tie: "round_to_double 9007199254740993 = 9007199254740992"
proof -
  have "bitlen 9007199254740993 = Suc 53"
    by (rule bitlen_bounds) simp_all
  then show ?thesis
    by (simp add: round_to_double_def Let_def)
qed

lemma js_plus_exact: "\<bar>a + q\<bar> \<le> 2 ^ 53 \<Longrightarrow> js_plus (Finite a) q = Finite (a + q)"
proof -
  assume small: "\<bar>a + q\<bar> \<le> 2 ^ 53"
  have "(2::int) ^ 53 < 2 ^ 1024"
    by (rule power_strict_increasing) simp_all
  with small have "a + q < 2 ^ 1024" "- (2 ^ 1024) < a + q"
    by linarith+
  with round_to_double_exact [OF small] show ?thesis
    by (simp add: Let_def)
qed

lemma map_id_addToCart:
  "map id' (addToCart p items) =
     (if id' p \<in> set (map id' items) then map id' items else map id' items @ [id' p])"
proof (cases "find_index (\<lambda>item. id' item = id' p) items")
  case None
  then have "id' p \<notin> set (map id' items)"
    by (auto simp: find_index_None)
  with None show ?thesis
    by (simp add: addToCart_def)
next
  case (Some i)
  from find_index_Some [OF Some] have i: "i < length items" "id' (items ! i) = id' p"
    by simp_all
  then have "id' p \<in> set (map id' items)"
    by (metis length_map nth_map nth_mem)
  moreover have "map id' (items[i := (items ! i)\<lparr>quantity := q\<rparr>]) = map id' items" for q
    using i by (simp add: map_update list_update_same_conv)
  ultimately show ?thesis using Some
    by (simp add: addToCart_def)
qed

lemma distinct_addToCart:
  "distinct (map id' items) \<Longrightarrow> distinct (map id' (addToCart p items))"
  by (simp add: map_id_addToCart)

lemma distinct_addAll:
  "distinct (map id' items) \<Longrightarrow> distinct (map id' (addAll ps items))"
  unfolding addAll_def
  by (induction ps arbitrary: items) (simp_all add: distinct_addToCart)

lemma sum_list_update_int:
  "i < length xs \<Longrightarrow> sum_list (xs[i := (v::int)]) = sum_list xs - xs ! i + v"
proof (induction xs arbitrary: i)
  case Nil
  then show ?case by simp
next
  case (Cons x xs)
  then show ?case by (cases i) simp_all
qed

lemma sum_list_nonneg_int: "\<forall>x \<in> set xs. (0::int) \<le> x \<Longrightarrow> 0 \<le> sum_list xs"
  by (induction xs) simp_all

lemma nth_le_sum_list_int:
  "\<forall>x \<in> set xs. (0::int) \<le> x \<Longrightarrow> i < length xs \<Longrightarrow> xs ! i \<le> sum_list xs"
proof (induction xs arbitrary: i)
  case Nil
  then show ?case by simp
next
  case (Cons x xs)
  show ?case
  proof (cases i)
    case 0
    with Cons.prems sum_list_nonneg_int [of xs] show ?thesis by simp
  next
    case (Suc j)
    with Cons.prems Cons.IH [of j] show ?thesis by simp
  qed
qed

lemma foldl_js_plus_exact:
  "0 \<le> a \<Longrightarrow> \<forall>q \<in> set qs. 0 \<le> q \<Longrightarrow> a + sum_list qs \<le> 2 ^ 53 \<Longrightarrow>
     foldl js_plus (Finite a) qs = Finite (a + sum_list qs)"
proof (induction qs arbitrary: a)
  case Nil
  then show ?case by simp
next
  case (Cons q qs)
  from Cons.prems have q: "0 \<le> q" and rest: "\<forall>x \<in> set qs. 0 \<le> x"
    by simp_all
  from rest have "0 \<le> sum_list qs"
    by (rule sum_list_nonneg_int)
  with Cons.prems q have "\<bar>a + q\<bar> \<le> 2 ^ 53"
    by simp
  then have step: "js_plus (Finite a) q = Finite (a + q)"
    by (rule js_plus_exact)
  from Cons.prems q have "0 \<le> a + q" "a + q + sum_list qs \<le> 2 ^ 53"
    by simp_all
  from Cons.IH [OF this(1) rest this(2)] step show ?case
    by (simp add: add.assoc)
qed

lemma foldl_js_plus_running:
  "\<forall>n \<le> length qs. \<bar>a + sum_list (take n qs)\<bar> \<le> 2 ^ 53 \<Longrightarrow>
     foldl js_plus (Finite a) qs = Finite (a + sum_list qs)"
proof (induction qs arbitrary: a)
  case Nil
  then show ?case by simp
next
  case (Cons q qs)
  from Cons.prems [rule_format, of 1] have "\<bar>a + q\<bar> \<le> 2 ^ 53"
    by simp
  then have step: "js_plus (Finite a) q = Finite (a + q)"
    by (rule js_plus_exact)
  have "\<forall>n \<le> length qs. \<bar>a + q + sum_list (take n qs)\<bar> \<le> 2 ^ 53"
  proof (intro allI impI)
    fix n assume "n \<le> length qs"
    with Cons.prems [rule_format, of "Suc n"] show "\<bar>a + q + sum_list (take n qs)\<bar> \<le> 2 ^ 53"
      by (simp add: add.assoc)
  qed
  from Cons.IH [OF this] step show ?case
    by (simp add: add.assoc)
qed

lemma totalItems_foldl: "totalItems items = foldl js_plus (Finite 0) (map quantity items)"
  by (simp add: totalItems_def foldl_map)

lemma totalItems_exact:
  assumes "\<forall>item \<in> set items. 0 \<le> quantity item"
    and "sum_list (map quantity items) \<le> 2 ^ 53"
  shows "totalItems items = Finite (sum_list (map quantity items))"
proof -
  from assms(1) have "\<forall>q \<in> set (map quantity items). 0 \<le> q"
    by simp
  from foldl_js_plus_exact [OF _ this, of 0] assms(2) show ?thesis
    by (simp add: totalItems_foldl)
qed

lemma totalItems_running:
  assumes "\<forall>n \<le> length items. \<bar>sum_list (map quantity (take n items))\<bar> \<le> 2 ^ 53"
  shows "totalItems items = Finite (sum_list (map quantity items))"
proof -
  from assms have "\<forall>n \<le> length (map quantity items).
      \<bar>0 + sum_list (take n (map quantity items))\<bar> \<le> 2 ^ 53"
    by (simp add: take_map)
  from foldl_js_plus_running [OF this] show ?thesis
    by (simp add: totalItems_foldl)
qed

lemma addToCart_counts:
  assumes pos: "\<forall>item \<in> set items. 1 \<le> quantity item"
    and bound: "sum_list (map quantity items) < 2 ^ 53"
  shows "(\<forall>item \<in> set (addToCart p items). 1 \<le> quantity item) \<and>
         sum_list (map quantity (addToCart p items)) = sum_list (map quantity items) + 1"
proof (cases "find_index (\<lambda>item. id' item = id' p) items")
  case None
  with pos show ?thesis
    by (simp add: addToCart_def)
next
  case (Some i)
  from find_index_Some [OF Some] have i: "i < length items" by simp
  let ?q = "quantity (items ! i)"
  from pos i have q1: "1 \<le> ?q" by simp
  from pos have "\<forall>x \<in> set (map quantity items). 0 \<le> x" by auto
  from nth_le_sum_list_int [OF this, of i] i have "?q \<le> sum_list (map quantity items)"
    by simp
  with bound q1 have "\<bar>?q + 1\<bar> \<le> 2 ^ 53" by simp
  then have exact: "round_to_double (?q + 1) = ?q + 1"
    by (rule round_to_double_exact)
  have upd: "addToCart p items = items[i := (items ! i)\<lparr>quantity := ?q + 1\<rparr>]"
    using Some exact by (simp add: addToCart_def)
  have "\<forall>item \<in> set (items[i := (items ! i)\<lparr>quantity := ?q + 1\<rparr>]). 1 \<le> quantity item"
  proof
    fix item
    assume "item \<in> set (items[i := (items ! i)\<lparr>quantity := ?q + 1\<rparr>])"
    then have "item = (items ! i)\<lparr>quantity := ?q + 1\<rparr> \<or> item \<in> set items"
      using set_update_subset_insert [of items i] by auto
    with pos q1 show "1 \<le> quantity item" by auto
  qed
  moreover have "sum_list (map quantity (items[i := (items ! i)\<lparr>quantity := ?q + 1\<rparr>])) =
      sum_list (map quantity items) + 1"
    using i by (simp add: map_update sum_list_update_int)
  ultimately show ?thesis
    by (simp only: upd)
qed

lemma addAll_counts:
  "\<forall>item \<in> set items. 1 \<le> quantity item \<Longrightarrow>
   sum_list (map quantity items) + int (length ps) \<le> 2 ^ 53 \<Longrightarrow>
     (\<forall>item \<in> set (addAll ps items). 1 \<le> quantity item) \<and>
     sum_list (map quantity (addAll ps items)) = sum_list (map quantity items) + int (length ps)"
proof (induction ps arbitrary: items)
  case Nil
  then show ?case by (simp add: addAll_def)
next
  case (Cons p ps)
  from Cons.prems(2) have "sum_list (map quantity items) < 2 ^ 53"
    by simp
  from addToCart_counts [OF Cons.prems(1) this, of p]
  have pos': "\<forall>item \<in> set (addToCart p items). 1 \<le> quantity item"
    and sum': "sum_list (map quantity (addToCart p items)) = sum_list (map quantity items) + 1"
    by simp_all
  from Cons.prems(2) sum'
  have "sum_list (map quantity (addToCart p items)) + int (length ps) \<le> 2 ^ 53"
    by simp
  from Cons.IH [OF pos' this] sum' show ?case
    by (simp add: addAll_def)
qed

lemma totalItems_addAll:
  assumes "\<forall>item \<in> set items. 1 \<le> quantity item"
    and "sum_list (map quantity items) + int (length ps) \<le> 2 ^ 53"
  shows "totalItems (addAll ps items) = Finite (sum_list (map quantity items) + int (length ps))"
proof -
  from addAll_counts [OF assms]
  have pos: "\<forall>item \<in> set (addAll ps items). 1 \<le> quantity item"
    and total: "sum_list (map quantity (addAll ps items)) =
      sum_list (map quantity items) + int (length ps)"
    by simp_all
  from pos have "\<forall>item \<in> set (addAll ps items). 0 \<le> quantity item"
    by auto
  from totalItems_exact [OF this] total assms(2) show ?thesis
    by simp
qed

lemma addToCart_absent:
  "id' p \<notin> id' ` set items \<Longrightarrow> addToCart p items = items @ [new_item p]"
proof -
  assume "id' p \<notin> id' ` set items"
  then have "find_index (\<lambda>item. id' item = id' p) items = None"
    unfolding find_index_None by (metis imageI)
  then show ?thesis by (simp add: addToCart_def)
qed

lemma addToCart_present:
  assumes "id' p \<in> id' ` set items"
  shows "\<exists>pre item post. items = pre @ item # post \<and> id' item = id' p \<and>
           id' p \<notin> id' ` set pre \<and>
           addToCart p items =
             pre @ item\<lparr>quantity := round_to_double (quantity item + 1)\<rparr> # post"
proof -
  from assms obtain i where fi: "find_index (\<lambda>item. id' item = id' p) items = Some i"
    by (cases "find_index (\<lambda>item. id' item = id' p) items") (auto simp: find_index_None)
  from find_index_Some [OF fi]
  have i: "i < length items" "id' (items ! i) = id' p" "\<forall>j < i. id' (items ! j) \<noteq> id' p"
    by simp_all
  have split: "items = take i items @ items ! i # drop (Suc i) items"
    using i(1) by (simp add: id_take_nth_drop)
  have pre: "id' p \<notin> id' ` set (take i items)"
  proof
    assume "id' p \<in> id' ` set (take i items)"
    then obtain j where "j < length (take i items)" "id' (take i items ! j) = id' p"
      by (metis imageE in_set_conv_nth)
    with i(3) show False by simp
  qed
  have "addToCart p items =
      take i items @
      (items ! i)\<lparr>quantity := round_to_double (quantity (items ! i) + 1)\<rparr> #
      drop (Suc i) items"
    using fi i(1) by (simp add: addToCart_def upd_conv_take_nth_drop)
  with split i(2) pre show ?thesis by blast
qed

lemma addToCart_twice: "addToCart p (addToCart p []) = [(new_item p)\<lparr>quantity := 2\<rparr>]"
  by (simp add: addToCart_def round_to_double_exact)

lemma cart_productManager_addToCart:
  "cart (productManager_addToCart p w) = addToCart p (cart w)"
  by (simp add: productManager_addToCart_def showToast_def saveCart_def updateCartCount_def)

lemma cartCount_productManager_addToCart:
  "cartCount (productManager_addToCart p w) = totalItems (addToCart p (cart w))"
  by (simp add: productManager_addToCart_def showToast_def saveCart_def updateCartCount_def)

section \<open>The claims about the cart\<close>

text \<open>
  C1, as stated for every cart, fails on a cart whose matching line item has the quantity
  \<open>2 ^ 53 = 9007199254740992\<close>, as a cart read from the storage may have: the sum
  \<open>quantity + 1\<close> of doubles is \<open>2 ^ 53\<close> again, so \<open>addToCart\<close> leaves the quantity, and the
  whole cart, as it was, instead of incrementing the quantity by 1.
\<close>

theorem addToCart_keeps_quantity_at_two_to_53:
  "let p = \<lparr>id' = ''lp0s7njk4f'', name = ''Nox Runner Pro'',
             description = ''Premium running shoes with advanced cushioning technology.'',
             price = Decimal 14999 2, image' = ''photo-1549298916-b41d501d3772'',
             badge = ''New'', category = ''running''\<rparr>;
       item = product.extend p (line_item.fields 9007199254740992)
   in id' item = id' p \<and>
      addToCart p [item] = [item] \<and>
      quantity (hd (addToCart p [item])) = 9007199254740992 \<and>
      quantity (hd (addToCart p [item])) \<noteq> quantity item + 1"
  by (simp add: Let_def addToCart_def product.defs line_item.defs round_to_double_tie)

text \<open>
  C1, amended. For every product \<open>p\<close> and every cart of line items with whole quantities,
  \<open>addToCart\<close> either replaces the quantity \<open>q\<close> of the line item whose identifier is that
  of \<open>p\<close> (the first one, which is what \<open>find\<close> returns) by the double nearest to \<open>q + 1\<close>,
  which is \<open>q + 1\<close> itself whenever \<open>- 2 ^ 53 \<le> q < 2 ^ 53\<close>, and leaves everything else as
  it is, or, when no line item has that identifier, appends a line item made of the
  properties of \<open>p\<close> and the quantity 1 at the end of the sequence. Adding the same product
  twice to the empty cart yields one line item with quantity 2. This update is what the
  method \<open>addToCart\<close> does to \<open>state.cart\<close>.
\<close>

theorem addToCart_adds_one_or_appends:
  "(id' p \<notin> id' ` set items \<longrightarrow>
      addToCart p items = items @ [new_item p] \<and>
      quantity (new_item p) = 1 \<and> product.truncate (new_item p) = p) \<and>
   (id' p \<in> id' ` set items \<longrightarrow>
      (\<exists>pre item post. items = pre @ item # post \<and> id' item = id' p \<and>
         id' p \<notin> id' ` set pre \<and>
         addToCart p items =
           pre @ item\<lparr>quantity := round_to_double (quantity item + 1)\<rparr> # post \<and>
         (- (2 ^ 53) \<le> quantity item \<and> quantity item < 2 ^ 53 \<longrightarrow>
            addToCart p items = pre @ item\<lparr>quantity := quantity item + 1\<rparr> # post))) \<and>
   addToCart p (addToCart p []) = [(new_item p)\<lparr>quantity := 2\<rparr>] \<and>
   length (addToCart p (addToCart p [])) = 1 \<and>
   cart (productManager_addToCart p w) = addToCart p (cart w)"
proof -
  have new: "product.truncate (new_item p) = p"
    by (simp add: new_item_def product.defs)
  have present: "\<exists>pre item post. items = pre @ item # post \<and> id' item = id' p \<and>
         id' p \<notin> id' ` set pre \<and>
         addToCart p items =
           pre @ item\<lparr>quantity := round_to_double (quantity item + 1)\<rparr> # post \<and>
         (- (2 ^ 53) \<le> quantity item \<and> quantity item < 2 ^ 53 \<longrightarrow>
            addToCart p items = pre @ item\<lparr>quantity := quantity item + 1\<rparr> # post)"
    if "id' p \<in> id' ` set items"
  proof -
    from addToCart_present [OF that] obtain pre item post
      where parts: "items = pre @ item # post" "id' item = id' p" "id' p \<notin> id' ` set pre"
        "addToCart p items =
           pre @ item\<lparr>quantity := round_to_double (quantity item + 1)\<rparr> # post"
      by blast
    have "round_to_double (quantity item + 1) = quantity item + 1"
      if "- (2 ^ 53) \<le> quantity item \<and> quantity item < 2 ^ 53"
      using that by (intro round_to_double_exact) (simp add: abs_le_iff)
    with parts show ?thesis by metis
  qed
  from new present show ?thesis
    using addToCart_absent [of p items] addToCart_twice [of p]
    by (simp add: cart_productManager_addToCart)
qed

theorem addToCart_adds_one_or_appends_witness:
  "let p = \<lparr>id' = ''lp0s7njk4f'', name = ''Nox Runner Pro'',
             description = ''Premium running shoes with advanced cushioning technology.'',
             price = Decimal 14999 2, image' = ''photo-1549298916-b41d501d3772'',
             badge = ''New'', category = ''running''\<rparr>
   in id' p \<notin> id' ` set [] \<and> addToCart p [] = [new_item p] \<and>
      id' p \<in> id' ` set [new_item p] \<and>
      - (2 ^ 53) \<le> quantity (new_item p) \<and> quantity (new_item p) < 2 ^ 53 \<and>
      addToCart p [new_item p] = [(new_item p)\<lparr>quantity := 2\<rparr>]"
proof -
  let ?p = "\<lparr>id' = ''lp0s7njk4f'', name = ''Nox Runner Pro'',
             description = ''Premium running shoes with advanced cushioning technology.'',
             price = Decimal 14999 2, image' = ''photo-1549298916-b41d501d3772'',
             badge = ''New'', category = ''running''\<rparr>"
  have h1: "id' ?p \<notin> id' ` set []" by simp
  have h2: "id' ?p \<in> id' ` set [new_item ?p]" by simp
  have h3: "- (2 ^ 53) \<le> quantity (new_item ?p) \<and> quantity (new_item ?p) < 2 ^ 53" by simp
  from addToCart_adds_one_or_appends [of ?p "[]"] h1
  have c1: "addToCart ?p [] = [new_item ?p]" by simp
  from addToCart_adds_one_or_appends [of ?p "[new_item ?p]"] h2
  obtain pre item post where parts: "[new_item ?p] = pre @ item # post"
    and upd: "- (2 ^ 53) \<le> quantity item \<and> quantity item < 2 ^ 53 \<longrightarrow>
      addToCart ?p [new_item ?p] = pre @ item\<lparr>quantity := quantity item + 1\<rparr> # post"
    by blast
  from parts have shape: "pre = [] \<and> item = new_item ?p \<and> post = []"
    by (cases pre) simp_all
  with upd h3 have c2: "addToCart ?p [new_item ?p] = [(new_item ?p)\<lparr>quantity := 2\<rparr>]"
    by simp
  show ?thesis
    unfolding Let_def using h1 h2 h3 c1 c2 by blast
qed

text \<open>
  C2. In every cart reached from the empty cart by a sequence of \<open>addToCart\<close> calls, no two
  line items have the same product identifier.
\<close>

theorem reachable_cart_distinct_ids: "distinct (map id' (addAll ps []))"
  by (rule distinct_addAll) simp

text \<open>
  C3, as stated for every cart, fails on the cart of two line items with the quantities
  \<open>2 ^ 53 = 9007199254740992\<close> and 1, as a cart read from the storage may be: the reduction
  adds doubles and gives \<open>2 ^ 53\<close>, while the sum of the quantities is \<open>2 ^ 53 + 1\<close>.
\<close>

theorem totalItems_rounds_beyond_two_to_53:
  "let p = \<lparr>id' = ''lp0s7njk4f'', name = ''Nox Runner Pro'',
             description = ''Premium running shoes with advanced cushioning technology.'',
             price = Decimal 14999 2, image' = ''photo-1549298916-b41d501d3772'',
             badge = ''New'', category = ''running''\<rparr>;
       r = \<lparr>id' = ''lp0s7njk4g'', name = ''Urban Street Classic'',
             description = ''Timeless design meets modern comfort in these versatile street shoes.'',
             price = Decimal 8999 2, image' = ''photo-1560769629-975ec94e6a86'',
             badge = ''Popular'', category = ''casual''\<rparr>;
       items = [product.extend p (line_item.fields 9007199254740992), new_item r]
   in totalItems items = Finite 9007199254740992 \<and>
      (\<Sum>item \<leftarrow> items. quantity item) = 9007199254740993 \<and>
      totalItems items \<noteq> Finite (\<Sum>item \<leftarrow> items. quantity item)"
proof -
  have "(9007199254740992::int) < 2 ^ 1024 \<and> - (2 ^ 1024) < (9007199254740992::int)"
    by simp
  then show ?thesis
    by (simp add: Let_def totalItems_def product.defs line_item.defs new_item_def
        round_to_double_exact round_to_double_tie)
qed

text \<open>
  C3, amended. For every cart of line items with whole quantities whose running sums stay
  within \<open>2 ^ 53\<close> in magnitude (the quantities of the first \<open>n\<close> line items add up to at
  most \<open>2 ^ 53\<close> in magnitude, for every \<open>n\<close>), as they do when no quantity is negative
  and all of them add up to at most \<open>2 ^ 53\<close>, the count computed by \<open>updateCartCount\<close> is
  the sum of the quantities of all line items; it is 0 for the empty cart, and after \<open>N\<close>
  calls of \<open>addToCart\<close> from the empty cart it is \<open>N\<close>, for every \<open>N\<close> up to \<open>2 ^ 53\<close>. It is
  the number that \<open>updateCartCount\<close> writes into the badge, also at the end of the method
  \<open>addToCart\<close>.
\<close>

theorem totalItems_is_sum_of_safe_quantities:
  "((\<forall>n \<le> length items. \<bar>\<Sum>item \<leftarrow> take n items. quantity item\<bar> \<le> 2 ^ 53) \<longrightarrow>
      totalItems items = Finite (\<Sum>item \<leftarrow> items. quantity item)) \<and>
   ((\<forall>item \<in> set items. 0 \<le> quantity item) \<and> (\<Sum>item \<leftarrow> items. quantity item) \<le> 2 ^ 53 \<longrightarrow>
      totalItems items = Finite (\<Sum>item \<leftarrow> items. quantity item)) \<and>
   totalItems [] = Finite 0 \<and>
   (length ps \<le> 2 ^ 53 \<longrightarrow> totalItems (addAll ps []) = Finite (int (length ps))) \<and>
   cartCount (updateCartCount w) = totalItems (cart w) \<and>
   cartCount (productManager_addToCart p w) = totalItems (addToCart p (cart w))"
proof -
  have empty: "totalItems [] = Finite 0"
    by (simp add: totalItems_def)
  have badge: "cartCount (updateCartCount w) = totalItems (cart w)"
    by (simp add: updateCartCount_def)
  have adds: "totalItems (addAll ps []) = Finite (int (length ps))" if "length ps \<le> 2 ^ 53"
  proof -
    from that have "int (length ps) \<le> 2 ^ 53"
      by (metis of_nat_le_iff of_nat_numeral of_nat_power)
    with totalItems_addAll [of "[]" ps] show ?thesis by simp
  qed
  from empty badge adds totalItems_exact [of items] totalItems_running [of items]
    cartCount_productManager_addToCart [of p w]
  show ?thesis by simp
qed

theorem totalItems_is_sum_of_safe_quantities_witness:
  "let p = \<lparr>id' = ''lp0s7njk4f'', name = ''Nox Runner Pro'',
             description = ''Premium running shoes with advanced cushioning technology.'',
             price = Decimal 14999 2, image' = ''photo-1549298916-b41d501d3772'',
             badge = ''New'', category = ''running''\<rparr>;
       items = [(new_item p)\<lparr>quantity := 2\<rparr>]
   in (\<forall>n \<le> length items. \<bar>\<Sum>item \<leftarrow> take n items. quantity item\<bar> \<le> 2 ^ 53) \<and>
      (\<forall>item \<in> set items. 0 \<le> quantity item) \<and> (\<Sum>item \<leftarrow> items. quantity item) \<le> 2 ^ 53 \<and>
      totalItems items = Finite 2 \<and>
      length [p, p, p] \<le> 2 ^ 53 \<and> totalItems (addAll [p, p, p] []) = Finite 3"
proof -
  let ?p = "\<lparr>id' = ''lp0s7njk4f'', name = ''Nox Runner Pro'',
             description = ''Premium running shoes with advanced cushioning technology.'',
             price = Decimal 14999 2, image' = ''photo-1549298916-b41d501d3772'',
             badge = ''New'', category = ''running''\<rparr>"
  let ?items = "[(new_item ?p)\<lparr>quantity := 2\<rparr>]"
  have h0: "\<forall>n \<le> length ?items. \<bar>\<Sum>item \<leftarrow> take n ?items. quantity item\<bar> \<le> 2 ^ 53"
    by (simp add: le_Suc_eq)
  have h1: "(\<forall>item \<in> set ?items. 0 \<le> quantity item) \<and> (\<Sum>item \<leftarrow> ?items. quantity item) \<le> 2 ^ 53"
    by simp
  have h2: "length [?p, ?p, ?p] \<le> 2 ^ 53"
    by simp
  note main = totalItems_is_sum_of_safe_quantities [of ?items "[?p, ?p, ?p]"]
  from main [THEN conjunct1] h0
  have c0: "totalItems ?items = Finite 2" by simp
  from main [THEN conjunct2, THEN conjunct1] h1
  have c1: "totalItems ?items = Finite 2" by simp
  from main [THEN conjunct2, THEN conjunct2, THEN conjunct2, THEN conjunct1] h2
  have c2: "totalItems (addAll [?p, ?p, ?p] []) = Finite 3" by simp
  show ?thesis
    unfolding Let_def using h0 h1 h2 c0 c1 c2 by blast
qed

section \<open>Properties of the identifiers\<close>

lemma digit36_inj: "a < 36 \<Longrightarrow> b < 36 \<Longrightarrow> digit36 a = digit36 b \<Longrightarrow> a = b"
proof -
  assume a: "a < 36" and b: "b < 36" and e: "digit36 a = digit36 b"
  have d: "distinct ''0123456789abcdefghijklmnopqrstuvwxyz''" by simp
  have l: "length ''0123456789abcdefghijklmnopqrstuvwxyz'' = 36" by simp
  from a b e show ?thesis
    unfolding digit36_def using d l by (metis nth_eq_iff_index_eq)
qed

lemma toString36_nonempty: "toString36 n \<noteq> []"
  by (subst toString36.simps) simp

lemma toString36_inj: "toString36 n = toString36 m \<Longrightarrow> n = m"
proof (induction n arbitrary: m rule: toString36.induct)
  case (1 n)
  show ?case
  proof (cases "n < 36")
    case True
    note n = this
    show ?thesis
    proof (cases "m < 36")
      case True
      with n "1.prems" show ?thesis
        by (simp add: toString36.simps [of n] toString36.simps [of m] digit36_inj)
    next
      case False
      with n "1.prems" toString36_nonempty [of "m div 36"] show ?thesis
        by (simp add: toString36.simps [of n] toString36.simps [of m])
    qed
  next
    case False
    note n = this
    show ?thesis
    proof (cases "m < 36")
      case True
      with n "1.prems" toString36_nonempty [of "n div 36"] show ?thesis
        by (simp add: toString36.simps [of n] toString36.simps [of m])
    next
      case False
      with n "1.prems" have e: "toString36 (n div 36) = toString36 (m div 36)"
        "digit36 (n mod 36) = digit36 (m mod 36)"
        by (simp_all add: toString36.simps [of n] toString36.simps [of m])
      from "1.IH" [OF n e(1)] have "n div 36 = m div 36" .
      moreover from e(2) have "n mod 36 = m mod 36"
        by (simp add: digit36_inj)
      ultimately show ?thesis
        by (metis div_mult_mod_eq)
    qed
  qed
qed

lemma generateId_differs:
  "now a \<noteq> now b \<Longrightarrow> length (toString36 (now a)) = length (toString36 (now b)) \<Longrightarrow>
     generateId a \<noteq> generateId b"
  by (auto simp: generateId_def dest: toString36_inj)

lemma addToCart_other:
  "id' p \<noteq> id' q \<Longrightarrow> addToCart q (addToCart p []) = [new_item p, new_item q]"
  by (simp add: addToCart_def)

lemma ids_fetchProducts:
  "map id' (fetchProducts r1 r2 r3 r4 r5 r6) = map generateId [r1, r2, r3, r4, r5, r6]"
  by (simp add: fetchProducts_def)

lemma names_fetchProducts:
  "map name (fetchProducts a1 a2 a3 a4 a5 a6) = map name (fetchProducts b1 b2 b3 b4 b5 b6)"
  by (simp add: fetchProducts_def)

lemma prices_fetchProducts:
  "map price (fetchProducts a1 a2 a3 a4 a5 a6) = map price (fetchProducts b1 b2 b3 b4 b5 b6)"
  by (simp add: fetchProducts_def)

lemma toString36_clock: "toString36 1700000000000 = ''loyw3v28''"
  by (simp add: toString36.simps [of 1700000000000] toString36.simps [of 47222222222]
      toString36.simps [of 1311728395] toString36.simps [of 36436899]
      toString36.simps [of 1012136] toString36.simps [of 28114] toString36.simps [of 780]
      toString36.simps [of 21] digit36_def)

section \<open>The claim about fresh identifiers\<close>

text \<open>
  C10. \<open>generateId\<close>, which the source comments with \<open>Generate unique ID\<close>, does not
  make the identifiers of two invocations of \<open>fetchProducts\<close> differ: an identifier is
  the text of the clock followed by random digits, and both can repeat. Here the six
  calls of each invocation read the clock at 1700000000000 ms (the wall clock that
  \<open>Date.now()\<close> follows was set back between the two loads), and the first call of
  \<open>Math.random()\<close> gives the digits \<open>4fzyo82mvyr\<close> in both. The first product of either
  batch then has the identifier \<open>loyw3v284fzyo82mvyr\<close>, and adding the first product of the
  first batch and then the product of the same name of the second batch gives one line
  item with quantity 2, not two line items.
\<close>

theorem fetchProducts_ids_coincide_on_equal_readings:
  "let a1 = \<lparr>now = 1700000000000, random_digits = ''4fzyo82mvyr''\<rparr>;
       a2 = \<lparr>now = 1700000000000, random_digits = ''q0l7d1xk9mb''\<rparr>;
       a3 = \<lparr>now = 1700000000000, random_digits = ''9c3hs5u2wze''\<rparr>;
       a4 = \<lparr>now = 1700000000000, random_digits = ''j8t4n6pa1yf''\<rparr>;
       a5 = \<lparr>now = 1700000000000, random_digits = ''2vg7r0ib5co''\<rparr>;
       a6 = \<lparr>now = 1700000000000, random_digits = ''m5e9k3wq8hd''\<rparr>;
       b1 = \<lparr>now = 1700000000000, random_digits = ''4fzyo82mvyr''\<rparr>;
       b2 = \<lparr>now = 1700000000000, random_digits = ''x1u6a4jz7ns''\<rparr>;
       b3 = \<lparr>now = 1700000000000, random_digits = ''6p2f8ylt0gv''\<rparr>;
       b4 = \<lparr>now = 1700000000000, random_digits = ''d7o3c9be4ri''\<rparr>;
       b5 = \<lparr>now = 1700000000000, random_digits = ''t0w5h1mk6qx''\<rparr>;
       b6 = \<lparr>now = 1700000000000, random_digits = ''8z4s2gan3uj''\<rparr>;
       first = fetchProducts a1 a2 a3 a4 a5 a6;
       later = fetchProducts b1 b2 b3 b4 b5 b6
   in id' (hd first) = ''loyw3v284fzyo82mvyr'' \<and> id' (hd later) = ''loyw3v284fzyo82mvyr'' \<and>
      name (hd first) = name (hd later) \<and>
      set (map id' first) \<inter> set (map id' later) \<noteq> {} \<and>
      addToCart (hd later) (addToCart (hd first) []) = [(new_item (hd first))\<lparr>quantity := 2\<rparr>] \<and>
      length (addToCart (hd later) (addToCart (hd first) [])) = 1"
  by (simp add: Let_def fetchProducts_def generateId_def toString36_clock addToCart_def
      round_to_double_exact)

section \<open>The claim about the theme\<close>

lemma theme_setTheme: "theme (setTheme t w) = t"
  by (simp add: setTheme_def)

lemma stored_setTheme: "getItem (localStorage (setTheme t w)) ''theme'' = Some t"
  by (simp add: setTheme_def getItem_def setItem_def)

lemma attribute_setTheme: "data_theme (setTheme t w) = Some t"
  by (simp add: setTheme_def)

text \<open>
  C9. Starting from the theme \<open>light\<close> or \<open>dark\<close>, two calls of \<open>toggleTheme\<close> give the
  theme they started from. After every call of \<open>setTheme\<close> or \<open>toggleTheme\<close> the value
  stored under the key \<open>theme\<close> is the value of \<open>state.theme\<close>, which is also the value of the
  attribute \<open>data-theme\<close> of the document.
\<close>

theorem toggleTheme_involution_and_persisted:
  "(theme w \<in> {''light'', ''dark''} \<longrightarrow> theme (toggleTheme (toggleTheme w)) = theme w) \<and>
   getItem (localStorage (setTheme t w)) ''theme'' = Some (theme (setTheme t w)) \<and>
   data_theme (setTheme t w) = Some (theme (setTheme t w)) \<and>
   getItem (localStorage (toggleTheme w)) ''theme'' = Some (theme (toggleTheme w)) \<and>
   data_theme (toggleTheme w) = Some (theme (toggleTheme w))"
  by (auto simp: toggleTheme_def theme_setTheme stored_setTheme attribute_setTheme)

theorem toggleTheme_involution_and_persisted_witness:
  "let w = \<lparr>theme = ''dark'', cart = [], products = [], isLoading = False, currentPage = 1,
             productsPerPage = 6, localStorage = Map.empty, data_theme = None,
             themeIcon = Some ''moon'', toasts = [], loadMoreBtn = None, productsGrid = [],
             cartCount = Finite 0\<rparr>
   in theme w \<in> {''light'', ''dark''} \<and> theme (toggleTheme (toggleTheme w)) = theme w \<and>
      theme (toggleTheme w) = ''light'' \<and>
      getItem (localStorage (toggleTheme w)) ''theme'' = Some ''light''"
  using toggleTheme_involution_and_persisted [of
      "\<lparr>theme = ''dark'', cart = [], products = [], isLoading = False, currentPage = 1,
             productsPerPage = 6, localStorage = Map.empty, data_theme = None,
             themeIcon = Some ''moon'', toasts = [], loadMoreBtn = None, productsGrid = [],
             cartCount = Finite 0\<rparr>" "''light''"]
  by (simp add: Let_def toggleTheme_def theme_setTheme)

section \<open>The claim about a failed load\<close>








section \<open>Properties of the regular expression\<close>

lemma match_tld_iff: "match_tld t \<longleftrightarrow> t \<noteq> [] \<and> list_all not_space_or_at t"
  by (simp add: match_tld_def)

lemma match_domain_rest_iff:
  "match_domain_rest cs \<longleftrightarrow>
     (\<exists>d t. cs = d @ CHR ''.'' # t \<and> list_all not_space_or_at d \<and> match_tld t)"
proof (induction cs)
  case Nil
  then show ?case by simp
next
  case (Cons c cs)
  show ?case
  proof
    assume "match_domain_rest (c # cs)"
    then consider "c = CHR ''.''" "match_tld cs" | "not_space_or_at c" "match_domain_rest cs"
      by auto
    then show "\<exists>d t. c # cs = d @ CHR ''.'' # t \<and> list_all not_space_or_at d \<and> match_tld t"
    proof cases
      case 1
      then have "c # cs = [] @ CHR ''.'' # cs \<and> list_all not_space_or_at [] \<and> match_tld cs"
        by simp
      then show ?thesis by blast
    next
      case 2
      with Cons.IH obtain d t where "cs = d @ CHR ''.'' # t" "list_all not_space_or_at d" "match_tld t"
        by blast
      with 2(1) have "c # cs = (c # d) @ CHR ''.'' # t \<and> list_all not_space_or_at (c # d) \<and> match_tld t"
        by simp
      then show ?thesis by blast
    qed
  next
    assume "\<exists>d t. c # cs = d @ CHR ''.'' # t \<and> list_all not_space_or_at d \<and> match_tld t"
    then obtain d t where dt: "c # cs = d @ CHR ''.'' # t" "list_all not_space_or_at d" "match_tld t"
      by blast
    show "match_domain_rest (c # cs)"
    proof (cases d)
      case Nil
      with dt show ?thesis by simp
    next
      case (Cons x d')
      with dt have "c = x" "cs = d' @ CHR ''.'' # t" "not_space_or_at c" "list_all not_space_or_at d'"
        by simp_all
      with dt(3) Cons.IH show ?thesis by auto
    qed
  qed
qed

lemma match_domain_iff:
  "match_domain s \<longleftrightarrow>
     (\<exists>d t. s = d @ CHR ''.'' # t \<and> d \<noteq> [] \<and> list_all not_space_or_at d \<and> match_tld t)"
proof (cases s)
  case Nil
  then show ?thesis by (simp add: match_domain_def)
next
  case (Cons c cs)
  show ?thesis
  proof
    assume "match_domain s"
    with Cons have c: "not_space_or_at c" and "match_domain_rest cs"
      by (simp_all add: match_domain_def)
    then obtain d t where "cs = d @ CHR ''.'' # t" "list_all not_space_or_at d" "match_tld t"
      unfolding match_domain_rest_iff by blast
    with c Cons have "s = (c # d) @ CHR ''.'' # t \<and> c # d \<noteq> [] \<and>
        list_all not_space_or_at (c # d) \<and> match_tld t"
      by simp
    then show "\<exists>d t. s = d @ CHR ''.'' # t \<and> d \<noteq> [] \<and> list_all not_space_or_at d \<and> match_tld t"
      by blast
  next
    assume "\<exists>d t. s = d @ CHR ''.'' # t \<and> d \<noteq> [] \<and> list_all not_space_or_at d \<and> match_tld t"
    then obtain d t where dt: "s = d @ CHR ''.'' # t" "d \<noteq> []" "list_all not_space_or_at d" "match_tld t"
      by blast
    then obtain x d' where d: "d = x # d'" by (cases d) auto
    with dt Cons have "c = x" "cs = d' @ CHR ''.'' # t" "not_space_or_at c" "list_all not_space_or_at d'"
      by simp_all
    with dt(4) have "not_space_or_at c \<and> match_domain_rest cs"
      unfolding match_domain_rest_iff by blast
    with Cons show "match_domain s" by (simp add: match_domain_def)
  qed
qed

lemma match_local_rest_iff:
  "match_local_rest cs \<longleftrightarrow>
     (\<exists>l dm. cs = l @ CHR ''@'' # dm \<and> list_all not_space_or_at l \<and> match_domain dm)"
proof (induction cs)
  case Nil
  then show ?case by simp
next
  case (Cons c cs)
  show ?case
  proof
    assume "match_local_rest (c # cs)"
    then consider "c = CHR ''@''" "match_domain cs" | "not_space_or_at c" "match_local_rest cs"
      by auto
    then show "\<exists>l dm. c # cs = l @ CHR ''@'' # dm \<and> list_all not_space_or_at l \<and> match_domain dm"
    proof cases
      case 1
      then have "c # cs = [] @ CHR ''@'' # cs \<and> list_all not_space_or_at [] \<and> match_domain cs"
        by simp
      then show ?thesis by blast
    next
      case 2
      with Cons.IH obtain l dm where "cs = l @ CHR ''@'' # dm" "list_all not_space_or_at l" "match_domain dm"
        by blast
      with 2(1) have "c # cs = (c # l) @ CHR ''@'' # dm \<and> list_all not_space_or_at (c # l) \<and> match_domain dm"
        by simp
      then show ?thesis by blast
    qed
  next
    assume "\<exists>l dm. c # cs = l @ CHR ''@'' # dm \<and> list_all not_space_or_at l \<and> match_domain dm"
    then obtain l dm where dt: "c # cs = l @ CHR ''@'' # dm" "list_all not_space_or_at l" "match_domain dm"
      by blast
    show "match_local_rest (c # cs)"
    proof (cases l)
      case Nil
      with dt show ?thesis by simp
    next
      case (Cons x l')
      with dt have "c = x" "cs = l' @ CHR ''@'' # dm" "not_space_or_at c" "list_all not_space_or_at l'"
        by simp_all
      with dt(3) Cons.IH show ?thesis by auto
    qed
  qed
qed

lemma emailRegex_test_shape:
  "emailRegex_test s \<longleftrightarrow>
     (\<exists>l d t. s = l @ ''@'' @ d @ ''.'' @ t \<and> l \<noteq> [] \<and> d \<noteq> [] \<and> t \<noteq> [] \<and>
        list_all not_space_or_at (l @ d @ t))"
proof
  assume "emailRegex_test s"
  then obtain c cs where s: "s = c # cs" "not_space_or_at c" "match_local_rest cs"
    by (cases s) (simp_all add: emailRegex_test_def)
  then obtain l dm where l: "cs = l @ CHR ''@'' # dm" "list_all not_space_or_at l" "match_domain dm"
    unfolding match_local_rest_iff by blast
  then obtain d t where d: "dm = d @ CHR ''.'' # t" "d \<noteq> []" "list_all not_space_or_at d" "match_tld t"
    unfolding match_domain_iff by blast
  from s l d have "s = (c # l) @ ''@'' @ d @ ''.'' @ t \<and> c # l \<noteq> [] \<and> d \<noteq> [] \<and> t \<noteq> [] \<and>
      list_all not_space_or_at ((c # l) @ d @ t)"
    by (simp add: match_tld_iff)
  then show "\<exists>l d t. s = l @ ''@'' @ d @ ''.'' @ t \<and> l \<noteq> [] \<and> d \<noteq> [] \<and> t \<noteq> [] \<and>
        list_all not_space_or_at (l @ d @ t)"
    by blast
next
  assume "\<exists>l d t. s = l @ ''@'' @ d @ ''.'' @ t \<and> l \<noteq> [] \<and> d \<noteq> [] \<and> t \<noteq> [] \<and>
        list_all not_space_or_at (l @ d @ t)"
  then obtain l d t where h: "s = l @ ''@'' @ d @ ''.'' @ t" "l \<noteq> []" "d \<noteq> []" "t \<noteq> []"
      "list_all not_space_or_at (l @ d @ t)"
    by blast
  then obtain c l' where l: "l = c # l'" by (cases l) auto
  from h have "match_domain (d @ CHR ''.'' # t)"
    unfolding match_domain_iff match_tld_iff by auto
  with h l have "match_local_rest (l' @ CHR ''@'' # d @ CHR ''.'' # t)"
    unfolding match_local_rest_iff by auto
  with h l show "emailRegex_test s"
    by (simp add: emailRegex_test_def)
qed

lemma email_bad: "emailRegex_test ''not-an-email'' = False"
  by (simp add: emailRegex_test_def not_space_or_at_def is_js_space_def match_domain_def match_tld_def)

lemma email_good: "emailRegex_test ''a@b.co'' = True"
  by (simp add: emailRegex_test_def not_space_or_at_def is_js_space_def match_domain_def match_tld_def)

lemma trim_examples: "trim ''not-an-email'' = ''not-an-email''" "trim ''a@b.co'' = ''a@b.co''" "trim ''  Jo  '' = ''Jo''"
  by (simp_all add: trim_def is_js_space_def)

section \<open>The claim about \<open>validateField\<close>\<close>

lemma fst_checkField:
  "fst (checkField inherited f) \<longleftrightarrow>
     \<not> (field_required f \<and> trim (field_value f) = []) \<and>
     \<not> (field_name f = ''email'' \<and> trim (field_value f) \<noteq> [] \<and>
          \<not> emailRegex_test (trim (field_value f))) \<and>
     \<not> (field_name f = ''name'' \<and> trim (field_value f) \<noteq> [] \<and>
          length (trim (field_value f)) < 2) \<and>
     \<not> (field_name f = ''message'' \<and> trim (field_value f) \<noteq> [] \<and>
          length (trim (field_value f)) < 10)"
  by (simp add: checkField_def Let_def)

lemma snd_checkField: "snd (checkField inherited f) \<noteq> [] \<longleftrightarrow> \<not> fst (checkField inherited f)"
  by (simp add: checkField_def Let_def)

lemma fst_validateField: "fst (validateField inherited f es) = fst (checkField inherited f)"
  by (simp add: validateField_def split: prod.split)

lemma emailRegex_test_Nil: "\<not> emailRegex_test []"
  by (simp add: emailRegex_test_def)

text \<open>
  C7. The result of \<open>validateField\<close> on the trimmed value of a field. A required field
  that is empty after trimming fails, and a required field with no rule of its own
  fails only then. A required \<open>email\<close> field passes exactly when the trimmed value
  matches the expression, a required \<open>name\<close> field exactly when the trimmed value has at
  least 2 characters, a required \<open>message\<close> field exactly when it has at least 10. A
  \<open>name\<close> of trimmed length 1 fails and one of length 2 passes; a \<open>message\<close> of trimmed
  length 9 fails and one of length 10 passes; the email \<open>not-an-email\<close> fails and
  \<open>a@b.co\<close> passes. The expression matches the strings of the shape
  \<open>local@domain.tld\<close>, three non-empty parts without white space and without \<open>@\<close>.
\<close>

theorem validateField_boundaries:
  "(field_required f \<and> trim (field_value f) = [] \<longrightarrow> \<not> fst (validateField inherited f es)) \<and>
   (field_required f \<and> field_name f \<notin> {''email'', ''name'', ''message''} \<longrightarrow>
      (fst (validateField inherited f es) \<longleftrightarrow> trim (field_value f) \<noteq> [])) \<and>
   (field_required f \<and> field_name f = ''email'' \<longrightarrow>
      (fst (validateField inherited f es) \<longleftrightarrow> emailRegex_test (trim (field_value f)))) \<and>
   (field_required f \<and> field_name f = ''name'' \<longrightarrow>
      (fst (validateField inherited f es) \<longleftrightarrow> 2 \<le> length (trim (field_value f)))) \<and>
   (field_required f \<and> field_name f = ''message'' \<longrightarrow>
      (fst (validateField inherited f es) \<longleftrightarrow> 10 \<le> length (trim (field_value f)))) \<and>
   (field_name f = ''name'' \<and> length (trim (field_value f)) = 1 \<longrightarrow> \<not> fst (validateField inherited f es)) \<and>
   (field_name f = ''name'' \<and> length (trim (field_value f)) = 2 \<longrightarrow> fst (validateField inherited f es)) \<and>
   (field_name f = ''message'' \<and> length (trim (field_value f)) = 9 \<longrightarrow> \<not> fst (validateField inherited f es)) \<and>
   (field_name f = ''message'' \<and> length (trim (field_value f)) = 10 \<longrightarrow> fst (validateField inherited f es)) \<and>
   (field_name f = ''email'' \<and> field_value f = ''not-an-email'' \<longrightarrow> \<not> fst (validateField inherited f es)) \<and>
   (field_name f = ''email'' \<and> field_value f = ''a@b.co'' \<longrightarrow> fst (validateField inherited f es)) \<and>
   (emailRegex_test s \<longleftrightarrow>
      (\<exists>l d t. s = l @ ''@'' @ d @ ''.'' @ t \<and> l \<noteq> [] \<and> d \<noteq> [] \<and> t \<noteq> [] \<and>
         list_all not_space_or_at (l @ d @ t)))"
proof -
  have 1: "field_required f \<and> trim (field_value f) = [] \<longrightarrow> \<not> fst (validateField inherited f es)"
    by (simp add: fst_validateField fst_checkField)
  have 2: "field_required f \<and> field_name f \<notin> {''email'', ''name'', ''message''} \<longrightarrow>
      (fst (validateField inherited f es) \<longleftrightarrow> trim (field_value f) \<noteq> [])"
    by (simp add: fst_validateField fst_checkField)
  have 3: "field_required f \<and> field_name f = ''email'' \<longrightarrow>
      (fst (validateField inherited f es) \<longleftrightarrow> emailRegex_test (trim (field_value f)))"
    using emailRegex_test_Nil by (auto simp add: fst_validateField fst_checkField)
  have 4: "field_required f \<and> field_name f = ''name'' \<longrightarrow>
      (fst (validateField inherited f es) \<longleftrightarrow> 2 \<le> length (trim (field_value f)))"
    by (auto simp add: fst_validateField fst_checkField)
  have 5: "field_required f \<and> field_name f = ''message'' \<longrightarrow>
      (fst (validateField inherited f es) \<longleftrightarrow> 10 \<le> length (trim (field_value f)))"
    by (auto simp add: fst_validateField fst_checkField)
  have 6: "field_name f = ''name'' \<and> length (trim (field_value f)) = 1 \<longrightarrow> \<not> fst (validateField inherited f es)"
    by (auto simp add: fst_validateField fst_checkField)
  have 7: "field_name f = ''name'' \<and> length (trim (field_value f)) = 2 \<longrightarrow> fst (validateField inherited f es)"
    by (auto simp add: fst_validateField fst_checkField)
  have 8: "field_name f = ''message'' \<and> length (trim (field_value f)) = 9 \<longrightarrow> \<not> fst (validateField inherited f es)"
    by (auto simp add: fst_validateField fst_checkField)
  have 9: "field_name f = ''message'' \<and> length (trim (field_value f)) = 10 \<longrightarrow> fst (validateField inherited f es)"
    by (auto simp add: fst_validateField fst_checkField)
  have 10: "field_name f = ''email'' \<and> field_value f = ''not-an-email'' \<longrightarrow> \<not> fst (validateField inherited f es)"
    by (simp add: fst_validateField fst_checkField trim_examples email_bad)
  have 11: "field_name f = ''email'' \<and> field_value f = ''a@b.co'' \<longrightarrow> fst (validateField inherited f es)"
    by (simp add: fst_validateField fst_checkField trim_examples email_good)
  from 1 2 3 4 5 6 7 8 9 10 11 emailRegex_test_shape [of s] show ?thesis
    by blast
qed

theorem validateField_boundaries_witness:
  "(let f = \<lparr>field_name = ''name'', field_value = '' J '', field_required = True, field_error = False\<rparr>
    in field_required f \<and> field_name f = ''name'' \<and> length (trim (field_value f)) = 1 \<and>
       \<not> fst (validateField Object_prototype f Map.empty)) \<and>
   (let f = \<lparr>field_name = ''name'', field_value = ''Jo'', field_required = True, field_error = False\<rparr>
    in field_name f = ''name'' \<and> length (trim (field_value f)) = 2 \<and>
       fst (validateField Object_prototype f Map.empty)) \<and>
   (let f = \<lparr>field_name = ''message'', field_value = ''123456789'', field_required = True, field_error = False\<rparr>
    in field_name f = ''message'' \<and> length (trim (field_value f)) = 9 \<and>
       \<not> fst (validateField Object_prototype f Map.empty)) \<and>
   (let f = \<lparr>field_name = ''message'', field_value = ''1234567890'', field_required = True, field_error = False\<rparr>
    in field_name f = ''message'' \<and> length (trim (field_value f)) = 10 \<and>
       fst (validateField Object_prototype f Map.empty)) \<and>
   (let f = \<lparr>field_name = ''email'', field_value = ''not-an-email'', field_required = True, field_error = False\<rparr>
    in field_name f = ''email'' \<and> field_value f = ''not-an-email'' \<and>
       \<not> fst (validateField Object_prototype f Map.empty)) \<and>
   (let f = \<lparr>field_name = ''email'', field_value = ''a@b.co'', field_required = True, field_error = False\<rparr>
    in field_name f = ''email'' \<and> field_value f = ''a@b.co'' \<and>
       fst (validateField Object_prototype f Map.empty)) \<and>
   (let f = \<lparr>field_name = ''phone'', field_value = ''   '', field_required = True, field_error = False\<rparr>
    in field_required f \<and> trim (field_value f) = [] \<and>
       field_name f \<notin> {''email'', ''name'', ''message''} \<and>
       \<not> fst (validateField Object_prototype f Map.empty))"
proof -
  have t: "trim '' J '' = ''J''" "trim ''Jo'' = ''Jo''" "trim ''123456789'' = ''123456789''"
    "trim ''1234567890'' = ''1234567890''" "trim ''   '' = []"
    by (simp_all add: trim_def is_js_space_def)
  have c1: "field_required (\<lparr>field_name = ''name'', field_value = '' J '', field_required = True, field_error = False\<rparr>) \<and> field_name (\<lparr>field_name = ''name'', field_value = '' J '', field_required = True, field_error = False\<rparr>) = ''name'' \<and> length (trim (field_value (\<lparr>field_name = ''name'', field_value = '' J '', field_required = True, field_error = False\<rparr>))) = 1 \<and>
       \<not> fst (validateField Object_prototype (\<lparr>field_name = ''name'', field_value = '' J '', field_required = True, field_error = False\<rparr>) Map.empty)"
    using validateField_boundaries [of "\<lparr>field_name = ''name'', field_value = '' J '', field_required = True, field_error = False\<rparr>" Object_prototype Map.empty "[]"]
    by (simp add: t trim_examples email_bad email_good)
  have c2: "field_name (\<lparr>field_name = ''name'', field_value = ''Jo'', field_required = True, field_error = False\<rparr>) = ''name'' \<and> length (trim (field_value (\<lparr>field_name = ''name'', field_value = ''Jo'', field_required = True, field_error = False\<rparr>))) = 2 \<and>
       fst (validateField Object_prototype (\<lparr>field_name = ''name'', field_value = ''Jo'', field_required = True, field_error = False\<rparr>) Map.empty)"
    using validateField_boundaries [of "\<lparr>field_name = ''name'', field_value = ''Jo'', field_required = True, field_error = False\<rparr>" Object_prototype Map.empty "[]"]
    by (simp add: t trim_examples email_bad email_good)
  have c3: "field_name (\<lparr>field_name = ''message'', field_value = ''123456789'', field_required = True, field_error = False\<rparr>) = ''message'' \<and> length (trim (field_value (\<lparr>field_name = ''message'', field_value = ''123456789'', field_required = True, field_error = False\<rparr>))) = 9 \<and>
       \<not> fst (validateField Object_prototype (\<lparr>field_name = ''message'', field_value = ''123456789'', field_required = True, field_error = False\<rparr>) Map.empty)"
    using validateField_boundaries [of "\<lparr>field_name = ''message'', field_value = ''123456789'', field_required = True, field_error = False\<rparr>" Object_prototype Map.empty "[]"]
    by (simp add: t trim_examples email_bad email_good)
  have c4: "field_name (\<lparr>field_name = ''message'', field_value = ''1234567890'', field_required = True, field_error = False\<rparr>) = ''message'' \<and> length (trim (field_value (\<lparr>field_name = ''message'', field_value = ''1234567890'', field_required = True, field_error = False\<rparr>))) = 10 \<and>
       fst (validateField Object_prototype (\<lparr>field_name = ''message'', field_value = ''1234567890'', field_required = True, field_error = False\<rparr>) Map.empty)"
    using validateField_boundaries [of "\<lparr>field_name = ''message'', field_value = ''1234567890'', field_required = True, field_error = False\<rparr>" Object_prototype Map.empty "[]"]
    by (simp add: t trim_examples email_bad email_good)
  have c5: "field_name (\<lparr>field_name = ''email'', field_value = ''not-an-email'', field_required = True, field_error = False\<rparr>) = ''email'' \<and> field_value (\<lparr>field_name = ''email'', field_value = ''not-an-email'', field_required = True, field_error = False\<rparr>) = ''not-an-email'' \<and>
       \<not> fst (validateField Object_prototype (\<lparr>field_name = ''email'', field_value = ''not-an-email'', field_required = True, field_error = False\<rparr>) Map.empty)"
    using validateField_boundaries [of "\<lparr>field_name = ''email'', field_value = ''not-an-email'', field_required = True, field_error = False\<rparr>" Object_prototype Map.empty "[]"]
    by (simp add: t trim_examples email_bad email_good)
  have c6: "field_name (\<lparr>field_name = ''email'', field_value = ''a@b.co'', field_required = True, field_error = False\<rparr>) = ''email'' \<and> field_value (\<lparr>field_name = ''email'', field_value = ''a@b.co'', field_required = True, field_error = False\<rparr>) = ''a@b.co'' \<and>
       fst (validateField Object_prototype (\<lparr>field_name = ''email'', field_value = ''a@b.co'', field_required = True, field_error = False\<rparr>) Map.empty)"
    using validateField_boundaries [of "\<lparr>field_name = ''email'', field_value = ''a@b.co'', field_required = True, field_error = False\<rparr>" Object_prototype Map.empty "[]"]
    by (simp add: t trim_examples email_bad email_good)
  have c7: "field_required (\<lparr>field_name = ''phone'', field_value = ''   '', field_required = True, field_error = False\<rparr>) \<and> trim (field_value (\<lparr>field_name = ''phone'', field_value = ''   '', field_required = True, field_error = False\<rparr>)) = [] \<and>
       field_name (\<lparr>field_name = ''phone'', field_value = ''   '', field_required = True, field_error = False\<rparr>) \<notin> {''email'', ''name'', ''message''} \<and>
       \<not> fst (validateField Object_prototype (\<lparr>field_name = ''phone'', field_value = ''   '', field_required = True, field_error = False\<rparr>) Map.empty)"
    using validateField_boundaries [of "\<lparr>field_name = ''phone'', field_value = ''   '', field_required = True, field_error = False\<rparr>" Object_prototype Map.empty "[]"]
    by (simp add: t trim_examples email_bad email_good)
  show ?thesis
    unfolding Let_def using c1 c2 c3 c4 c5 c6 c7 by blast
qed

section \<open>The claim about \<open>validateForm\<close>\<close>

lemma field_validateField:
  "fst (snd (validateField inherited x es)) = x\<lparr>field_error := \<not> fst (checkField inherited x)\<rparr>"
  using snd_checkField [of inherited x]
  by (cases "checkField inherited x") (simp add: validateField_def showFieldError_def clearFieldError_def)

lemma errors_validateField_other:
  "k \<noteq> field_name x @ ''-error'' \<Longrightarrow> snd (snd (validateField inherited x es)) k = es k"
  by (cases "checkField inherited x")
    (simp add: validateField_def showFieldError_def clearFieldError_def split: option.split)

lemma errors_validateField_invalid:
  "\<not> fst (checkField inherited x) \<Longrightarrow> es (field_name x @ ''-error'') = Some e \<Longrightarrow>
     snd (snd (validateField inherited x es)) (field_name x @ ''-error'') =
       Some \<lparr>error_text = snd (checkField inherited x), error_show = True\<rparr>"
  using snd_checkField [of inherited x]
  by (cases "checkField inherited x") (simp add: validateField_def showFieldError_def)

lemma errors_validateField_None:
  "snd (snd (validateField inherited x es)) k = None \<longleftrightarrow> es k = None"
  by (cases "checkField inherited x")
    (simp add: validateField_def showFieldError_def clearFieldError_def split: option.split)

lemma result_validateFields:
  "fst (validateFields inherited fs es b) \<longleftrightarrow>
     b \<and> (\<forall>x \<in> set fs. field_required x \<longrightarrow> fst (checkField inherited x))"
  by (induction fs arbitrary: es b) (auto simp: case_prod_beta Let_def fst_validateField)

lemma fields_validateFields:
  "fst (snd (validateFields inherited fs es b)) =
     map (\<lambda>x. if field_required x then x\<lparr>field_error := \<not> fst (checkField inherited x)\<rparr> else x) fs"
  by (induction fs arbitrary: es b) (simp_all add: case_prod_beta Let_def field_validateField)

lemma errors_validateFields_other:
  "\<forall>x \<in> set fs. field_required x \<longrightarrow> field_name x @ ''-error'' \<noteq> k \<Longrightarrow>
     snd (snd (validateFields inherited fs es b)) k = es k"
proof (induction fs arbitrary: es b)
  case Nil
  then show ?case by simp
next
  case (Cons x fs)
  from Cons.prems have rest: "\<forall>x \<in> set fs. field_required x \<longrightarrow> field_name x @ ''-error'' \<noteq> k"
    by simp
  show ?case
  proof (cases "field_required x")
    case True
    with Cons.prems have "k \<noteq> field_name x @ ''-error''" by auto
    then have "snd (snd (validateField inherited x es)) k = es k"
      by (rule errors_validateField_other)
    with True Cons.IH [OF rest] show ?thesis
      by (simp add: case_prod_beta Let_def)
  next
    case False
    with Cons.IH [OF rest] show ?thesis
      by (simp add: case_prod_beta Let_def)
  qed
qed

lemma errors_validateFields_None:
  "snd (snd (validateFields inherited fs es b)) k = None \<longleftrightarrow> es k = None"
  by (induction fs arbitrary: es b)
    (simp_all add: case_prod_beta Let_def errors_validateField_None)

lemma errors_validateFields_invalid:
  assumes "i < length fs" "field_required (fs ! i)" "\<not> fst (checkField inherited (fs ! i))"
    and "\<forall>j. i < j \<and> j < length fs \<and> field_required (fs ! j) \<longrightarrow>
           field_name (fs ! j) \<noteq> field_name (fs ! i)"
    and "es (field_name (fs ! i) @ ''-error'') \<noteq> None"
  shows "snd (snd (validateFields inherited fs es b)) (field_name (fs ! i) @ ''-error'') =
           Some \<lparr>error_text = snd (checkField inherited (fs ! i)), error_show = True\<rparr>"
  using assms
proof (induction fs arbitrary: i es b)
  case Nil
  then show ?case by simp
next
  case (Cons x fs)
  show ?case
  proof (cases i)
    case 0
    let ?k = "field_name x @ ''-error''"
    from Cons.prems 0 have req: "field_required x" and bad: "\<not> fst (checkField inherited x)"
      and ex: "es ?k \<noteq> None"
      by simp_all
    from ex obtain e where e: "es ?k = Some e" by auto
    have now: "snd (snd (validateField inherited x es)) ?k =
        Some \<lparr>error_text = snd (checkField inherited x), error_show = True\<rparr>"
      using bad e by (rule errors_validateField_invalid [of inherited x es e])
    have later: "\<forall>y \<in> set fs. field_required y \<longrightarrow> field_name y @ ''-error'' \<noteq> ?k"
    proof (intro ballI impI)
      fix y assume y: "y \<in> set fs" "field_required y"
      then obtain j where j: "j < length fs" "fs ! j = y"
        by (auto simp: in_set_conv_nth)
      with Cons.prems(4) 0 y(2) have "field_name ((x # fs) ! Suc j) \<noteq> field_name x"
        by (metis length_Cons not_less_eq nth_Cons_0 nth_Cons_Suc zero_less_Suc)
      with j show "field_name y @ ''-error'' \<noteq> ?k" by simp
    qed
    have "snd (snd (validateFields inherited fs es' b')) ?k = es' ?k" for es' b'
      by (rule errors_validateFields_other [OF later])
    with now req 0 show ?thesis
      by (simp add: case_prod_beta Let_def)
  next
    case (Suc i')
    let ?k = "field_name (fs ! i') @ ''-error''"
    from Cons.prems Suc have p: "i' < length fs" "field_required (fs ! i')"
      "\<not> fst (checkField inherited (fs ! i'))" "es ?k \<noteq> None"
      by simp_all
    have q: "\<forall>j. i' < j \<and> j < length fs \<and> field_required (fs ! j) \<longrightarrow>
           field_name (fs ! j) \<noteq> field_name (fs ! i')"
    proof (intro allI impI)
      fix j assume "i' < j \<and> j < length fs \<and> field_required (fs ! j)"
      with Cons.prems(4) [rule_format, of "Suc j"] Suc
      show "field_name (fs ! j) \<noteq> field_name (fs ! i')" by simp
    qed
    show ?thesis
    proof (cases "field_required x")
      case True
      have "snd (snd (validateField inherited x es)) ?k \<noteq> None"
        using errors_validateField_None [of inherited x es ?k] p(4) by simp
      from Cons.IH [of i' "snd (snd (validateField inherited x es))" "if \<not> fst (validateField inherited x es) then False else b"]
        p(1-3) q this True Suc
      show ?thesis by (simp add: case_prod_beta Let_def)
    next
      case False
      from Cons.IH [of i' es b] p q False Suc
      show ?thesis by (simp add: case_prod_beta Let_def)
    qed
  qed
qed

lemma checkField_inherited_label:
  "checkField Object_prototype
     \<lparr>field_name = ''toString'', field_value = [], field_required = True, field_error = False\<rparr> =
     (False, ''function toString() { [native code] } is required.'')"
  "checkField Object_prototype
     \<lparr>field_name = ''phone'', field_value = [], field_required = True, field_error = False\<rparr> =
     (False, ''phone is required.'')"
  "checkField Object_prototype
     \<lparr>field_name = ''email'', field_value = [], field_required = True, field_error = False\<rparr> =
     (False, ''Email is required.'')"
  by (simp_all add: checkField_def Let_def getFieldLabel_def Object_prototype_def trim_def)

text \<open>
  C8, as stated, fails in its last part. In a form with two required fields of the name
  \<open>email\<close>, the first one invalid and the second one valid, \<open>validateForm\<close> returns
  \<open>false\<close> and marks the first field, but the valid second field clears the error element
  \<open>email-error\<close> that the two share: the message of the invalid field is not shown. In a
  page without the element \<open>name-error\<close>, an invalid field \<open>name\<close> gets no message either.
\<close>

theorem validateForm_message_not_shown:
  "(let f = \<lparr>form_fields =
                [\<lparr>field_name = ''email'', field_value = ''not-an-email'', field_required = True,
                   field_error = False\<rparr>,
                 \<lparr>field_name = ''email'', field_value = ''a@b.co'', field_required = True,
                   field_error = False\<rparr>],
              form_errors = [''email-error'' \<mapsto> \<lparr>error_text = [], error_show = False\<rparr>]\<rparr>
    in \<not> fst (validateField Object_prototype (form_fields f ! 0) (form_errors f)) \<and>
       \<not> fst (validateForm Object_prototype f) \<and>
       map field_error (form_fields (snd (validateForm Object_prototype f))) = [True, False] \<and>
       form_errors (snd (validateForm Object_prototype f)) ''email-error'' =
         Some \<lparr>error_text = ''Please enter a valid email address.'', error_show = False\<rparr>) \<and>
   (let f = \<lparr>form_fields =
                [\<lparr>field_name = ''name'', field_value = ''J'', field_required = True,
                   field_error = False\<rparr>],
              form_errors = Map.empty\<rparr>
    in \<not> fst (validateForm Object_prototype f) \<and>
       form_errors (snd (validateForm Object_prototype f)) = Map.empty)"
proof -
  have t: "trim ''J'' = ''J''"
    by (simp add: trim_def is_js_space_def)
  have c1: "checkField Object_prototype
      \<lparr>field_name = ''email'', field_value = ''not-an-email'', field_required = True,
        field_error = False\<rparr> = (False, ''Please enter a valid email address.'')"
    by (simp add: checkField_def Let_def trim_examples email_bad)
  have c2: "checkField Object_prototype
      \<lparr>field_name = ''email'', field_value = ''a@b.co'', field_required = True,
        field_error = False\<rparr> = (True, [])"
    by (simp add: checkField_def Let_def trim_examples email_good)
  have c3: "checkField Object_prototype
      \<lparr>field_name = ''name'', field_value = ''J'', field_required = True,
        field_error = False\<rparr> = (False, ''Name must be at least 2 characters long.'')"
    by (simp add: checkField_def Let_def t)
  show ?thesis
    by (simp add: Let_def validateForm_def validateField_def showFieldError_def
        clearFieldError_def c1 c2 c3)
qed

text \<open>
  C8, amended. \<open>validateForm\<close> returns the conjunction of the results of \<open>validateField\<close>
  on all required fields of the form. It calls \<open>validateField\<close> on every required field,
  whatever the results of the earlier ones: afterwards every required field carries the
  class \<open>error\<close> exactly when it is invalid, and for every invalid required field whose
  error element exists in the page and whose name no later required field has, that
  element shows the message of this field.
\<close>

theorem validateForm_checks_every_required_field:
  "fst (validateForm inherited f) =
     (\<forall>x \<in> set (form_fields f). field_required x \<longrightarrow> fst (validateField inherited x (form_errors f))) \<and>
   form_fields (snd (validateForm inherited f)) =
     map (\<lambda>x. if field_required x then x\<lparr>field_error := \<not> fst (validateField inherited x (form_errors f))\<rparr> else x)
       (form_fields f) \<and>
   (\<forall>i < length (form_fields f).
      field_required (form_fields f ! i) \<and>
      \<not> fst (validateField inherited (form_fields f ! i) (form_errors f)) \<and>
      (\<forall>j. i < j \<and> j < length (form_fields f) \<and> field_required (form_fields f ! j) \<longrightarrow>
           field_name (form_fields f ! j) \<noteq> field_name (form_fields f ! i)) \<and>
      form_errors f (field_name (form_fields f ! i) @ ''-error'') \<noteq> None \<longrightarrow>
      snd (checkField inherited (form_fields f ! i)) \<noteq> [] \<and>
      form_errors (snd (validateForm inherited f)) (field_name (form_fields f ! i) @ ''-error'') =
        Some \<lparr>error_text = snd (checkField inherited (form_fields f ! i)), error_show = True\<rparr>)"
proof -
  obtain res fs' es' where v: "validateFields inherited (form_fields f) (form_errors f) True = (res, fs', es')"
    by (cases "validateFields inherited (form_fields f) (form_errors f) True") auto
  then have vf: "validateForm inherited f = (res, \<lparr>form_fields = fs', form_errors = es'\<rparr>)"
    by (simp add: validateForm_def)
  have 1: "res = (\<forall>x \<in> set (form_fields f). field_required x \<longrightarrow> fst (checkField inherited x))"
    using result_validateFields [of inherited "form_fields f" "form_errors f" True] v by simp
  have 2: "fs' = map (\<lambda>x. if field_required x then x\<lparr>field_error := \<not> fst (checkField inherited x)\<rparr> else x)
       (form_fields f)"
    using fields_validateFields [of inherited "form_fields f" "form_errors f" True] v by simp
  have 3: "snd (checkField inherited (form_fields f ! i)) \<noteq> [] \<and>
      es' (field_name (form_fields f ! i) @ ''-error'') =
        Some \<lparr>error_text = snd (checkField inherited (form_fields f ! i)), error_show = True\<rparr>"
    if "i < length (form_fields f)" "field_required (form_fields f ! i)"
      "\<not> fst (checkField inherited (form_fields f ! i))"
      "\<forall>j. i < j \<and> j < length (form_fields f) \<and> field_required (form_fields f ! j) \<longrightarrow>
           field_name (form_fields f ! j) \<noteq> field_name (form_fields f ! i)"
      "form_errors f (field_name (form_fields f ! i) @ ''-error'') \<noteq> None" for i
    using errors_validateFields_invalid [of i "form_fields f" inherited "form_errors f" True] that v
      snd_checkField [of inherited "form_fields f ! i"] by simp
  from 1 2 3 show ?thesis
    unfolding vf fst_validateField by simp
qed

theorem validateForm_checks_every_required_field_witness:
  "let f = \<lparr>form_fields =
               [\<lparr>field_name = ''name'', field_value = ''J'', field_required = True, field_error = False\<rparr>,
                \<lparr>field_name = ''email'', field_value = ''not-an-email'', field_required = True, field_error = False\<rparr>],
             form_errors =
               [''name-error'' \<mapsto> \<lparr>error_text = [], error_show = False\<rparr>,
                ''email-error'' \<mapsto> \<lparr>error_text = [], error_show = False\<rparr>]\<rparr>
   in (\<forall>i < length (form_fields f).
         field_required (form_fields f ! i) \<and>
         \<not> fst (validateField Object_prototype (form_fields f ! i) (form_errors f)) \<and>
         (\<forall>j. i < j \<and> j < length (form_fields f) \<and> field_required (form_fields f ! j) \<longrightarrow>
              field_name (form_fields f ! j) \<noteq> field_name (form_fields f ! i)) \<and>
         form_errors f (field_name (form_fields f ! i) @ ''-error'') \<noteq> None) \<and>
      \<not> fst (validateForm Object_prototype f) \<and>
      form_errors (snd (validateForm Object_prototype f)) ''name-error'' =
        Some \<lparr>error_text = ''Name must be at least 2 characters long.'', error_show = True\<rparr> \<and>
      form_errors (snd (validateForm Object_prototype f)) ''email-error'' =
        Some \<lparr>error_text = ''Please enter a valid email address.'', error_show = True\<rparr>"
proof -
  let ?n = "\<lparr>field_name = ''name'', field_value = ''J'', field_required = True, field_error = False\<rparr>"
  let ?e = "\<lparr>field_name = ''email'', field_value = ''not-an-email'', field_required = True, field_error = False\<rparr>"
  let ?es = "[''name-error'' \<mapsto> \<lparr>error_text = [], error_show = False\<rparr>,
                ''email-error'' \<mapsto> \<lparr>error_text = [], error_show = False\<rparr>]"
  let ?f = "\<lparr>form_fields = [?n, ?e], form_errors = ?es\<rparr>"
  have t: "trim ''J'' = ''J''"
    by (simp add: trim_def is_js_space_def)
  have cn: "checkField Object_prototype ?n = (False, ''Name must be at least 2 characters long.'')"
    by (simp add: checkField_def Let_def t)
  have ce: "checkField Object_prototype ?e = (False, ''Please enter a valid email address.'')"
    by (simp add: checkField_def Let_def trim_examples email_bad)
  have hyp: "\<forall>i < length (form_fields ?f).
         field_required (form_fields ?f ! i) \<and>
         \<not> fst (validateField Object_prototype (form_fields ?f ! i) (form_errors ?f)) \<and>
         (\<forall>j. i < j \<and> j < length (form_fields ?f) \<and> field_required (form_fields ?f ! j) \<longrightarrow>
              field_name (form_fields ?f ! j) \<noteq> field_name (form_fields ?f ! i)) \<and>
         form_errors ?f (field_name (form_fields ?f ! i) @ ''-error'') \<noteq> None"
    by (simp add: less_Suc_eq nth_Cons' fst_validateField cn ce all_conj_distrib)
  note main = validateForm_checks_every_required_field [of Object_prototype ?f]
  have r: "\<not> fst (validateForm Object_prototype ?f)"
    unfolding main [THEN conjunct1] by (simp add: fst_validateField cn)
  have len: "0 < length (form_fields ?f)" "1 < length (form_fields ?f)"
    by simp_all
  note q0 = main [THEN conjunct2, THEN conjunct2, rule_format, OF len(1) hyp [rule_format, OF len(1)]]
  note q1 = main [THEN conjunct2, THEN conjunct2, rule_format, OF len(2) hyp [rule_format, OF len(2)]]
  have m0: "form_errors (snd (validateForm Object_prototype ?f)) ''name-error'' =
        Some \<lparr>error_text = ''Name must be at least 2 characters long.'', error_show = True\<rparr>"
    using q0 by (simp add: cn)
  have m1: "form_errors (snd (validateForm Object_prototype ?f)) ''email-error'' =
        Some \<lparr>error_text = ''Please enter a valid email address.'', error_show = True\<rparr>"
    using q1 by (simp add: ce)
  show ?thesis
    unfolding Let_def using hyp r m0 m1 by (intro conjI)
qed

section \<open>Properties of the number notation\<close>

lemma digit_char_props:
  "\<forall>d \<in> set [0..<10]. is_digit (digit_char d) \<and> digit_value (digit_char d) = d \<and>
     (digit_char d = CHR ''0'' \<longleftrightarrow> d = 0)"
  by (simp add: upt_rec digit_char_def is_digit_def digit_value_def)

lemma is_digit_digit_char: "d < 10 \<Longrightarrow> is_digit (digit_char d)"
  using digit_char_props by simp

lemma digit_value_digit_char: "d < 10 \<Longrightarrow> digit_value (digit_char d) = d"
  using digit_char_props by simp

lemma digit_char_zero: "d < 10 \<Longrightarrow> digit_char d = CHR ''0'' \<longleftrightarrow> d = 0"
  using digit_char_props by simp

lemma digits_nonempty: "digits n \<noteq> []"
  by (subst digits.simps) simp

lemma digits_all_digit: "list_all is_digit (digits n)"
  by (induction n rule: digits.induct) (subst digits.simps, simp add: is_digit_digit_char)

lemma digits_value_snoc: "digits_value (ds @ [c]) = 10 * digits_value ds + digit_value c"
  by (simp add: digits_value_def)

lemma digits_value_digits: "digits_value (digits n) = n"
proof (induction n rule: digits.induct)
  case (1 n)
  show ?case
  proof (cases "n < 10")
    case True
    then show ?thesis
      by (subst digits.simps) (simp add: digits_value_def digit_value_digit_char)
  next
    case False
    with 1 show ?thesis
      by (subst digits.simps) (simp add: digits_value_snoc digit_value_digit_char)
  qed
qed

lemma digits_value_append:
  "digits_value (xs @ ys) = digits_value xs * 10 ^ length ys + digits_value ys"
proof (induction ys rule: rev_induct)
  case Nil
  then show ?case by (simp add: digits_value_def)
next
  case (snoc y ys)
  have "digits_value (xs @ ys @ [y]) = 10 * digits_value (xs @ ys) + digit_value y"
    using digits_value_snoc [of "xs @ ys" y] by simp
  with snoc show ?case
    by (simp add: digits_value_snoc algebra_simps)
qed

lemma digits_value_zeros: "digits_value (replicate z CHR ''0'') = 0"
proof (induction z)
  case 0
  then show ?case by (simp add: digits_value_def)
next
  case (Suc z)
  have "replicate (Suc z) CHR ''0'' = replicate z CHR ''0'' @ [CHR ''0'']"
    by (simp add: replicate_append_same)
  then have "digits_value (replicate (Suc z) CHR ''0'') =
      10 * digits_value (replicate z CHR ''0'') + digit_value CHR ''0''"
    by (simp only: digits_value_snoc)
  with Suc show ?case by (simp add: digit_value_def)
qed

lemma hd_digits_zero: "hd (digits n) = CHR ''0'' \<longleftrightarrow> n = 0"
proof (induction n rule: digits.induct)
  case (1 n)
  show ?case
  proof (cases "n < 10")
    case True
    then show ?thesis
      by (subst digits.simps) (simp add: digit_char_zero)
  next
    case False
    then have "n div 10 \<noteq> 0" by simp
    with 1 False show ?thesis
      by (subst digits.simps) (simp add: digits_nonempty)
  qed
qed

lemma digits_zero: "digits 0 = ''0''"
  by (subst digits.simps) (simp add: digit_char_def)

lemma length_digits: "n < 10 ^ k \<Longrightarrow> 0 < k \<Longrightarrow> length (digits n) \<le> k"
proof (induction n arbitrary: k rule: digits.induct)
  case (1 n)
  show ?case
  proof (cases "n < 10")
    case True
    with "1.prems" show ?thesis
      by (subst digits.simps) simp
  next
    case False
    with "1.prems" obtain k' where k: "k = Suc k'" by (cases k) auto
    with False "1.prems" have k': "0 < k'" by (cases k') auto
    from "1.prems" k have "n div 10 < 10 ^ k'"
      by (simp add: less_mult_imp_div_less mult.commute)
    from "1.IH" [OF False this k'] False k show ?thesis
      by (subst digits.simps) simp
  qed
qed

lemma takeWhile_digits_stop:
  "list_all is_digit ds \<Longrightarrow> \<not> is_digit c \<Longrightarrow> takeWhile is_digit (ds @ c # r) = ds"
  by (induction ds) simp_all

lemma dropWhile_digits_stop:
  "list_all is_digit ds \<Longrightarrow> \<not> is_digit c \<Longrightarrow> dropWhile is_digit (ds @ c # r) = c # r"
  by (induction ds) simp_all

lemma read_digits_stop:
  "list_all is_digit ds \<Longrightarrow> \<not> is_digit c \<Longrightarrow> read_digits (ds @ c # r) = (ds, c # r)"
  by (simp add: read_digits_def takeWhile_digits_stop dropWhile_digits_stop)

lemma not_digit_point: "\<not> is_digit CHR ''.''"
  by (simp add: is_digit_def)

lemma read_int_part_stop:
  assumes "ip \<noteq> []" "list_all is_digit ip" "hd ip = CHR ''0'' \<longrightarrow> ip = ''0''" "\<not> is_digit c"
  shows "read_int_part (ip @ c # r) = (ip, c # r)"
proof (cases "hd ip = CHR ''0''")
  case True
  with assms(3) have "ip = ''0''" by simp
  then show ?thesis by (simp add: read_int_part_def)
next
  case False
  with assms(1,2,4) show ?thesis
    by (simp add: read_int_part_def read_digits_stop)
qed

lemma read_fraction_none:
  "c \<noteq> CHR ''.'' \<Longrightarrow> read_fraction (c # r) = Some ([], c # r)"
  by (simp add: read_fraction_def)

lemma read_fraction_stop:
  "fd \<noteq> [] \<Longrightarrow> list_all is_digit fd \<Longrightarrow> \<not> is_digit c \<Longrightarrow>
     read_fraction (CHR ''.'' # fd @ c # r) = Some (fd, c # r)"
  by (simp add: read_fraction_def read_digits_stop)

lemma read_exponent_none:
  "c \<noteq> CHR ''e'' \<Longrightarrow> c \<noteq> CHR ''E'' \<Longrightarrow> read_exponent (c # r) = Some (0, c # r)"
  by (simp add: read_exponent_def)

lemma parse_number_integer:
  assumes ip: "ip \<noteq> []" "list_all is_digit ip" "hd ip = CHR ''0'' \<longrightarrow> ip = ''0''"
    and c: "\<not> is_digit c" "c \<noteq> CHR ''.''" "c \<noteq> CHR ''e''" "c \<noteq> CHR ''E''"
  shows "parse_number ((if neg then ''-'' else []) @ ip @ c # r) =
           Some (Decimal (if neg then - int (digits_value ip) else int (digits_value ip)) 0, c # r)"
proof -
  from ip have h: "hd ip \<noteq> CHR ''-''"
    by (cases ip) (auto simp: is_digit_def)
  show ?thesis
    using ip(1) h
    by (simp add: parse_number_def read_int_part_stop [OF ip c(1)] read_fraction_none [OF c(2)]
        read_exponent_none [OF c(3,4)])
qed

lemma parse_number_fraction:
  assumes ip: "ip \<noteq> []" "list_all is_digit ip" "hd ip = CHR ''0'' \<longrightarrow> ip = ''0''"
    and fd: "fd \<noteq> []" "list_all is_digit fd"
    and c: "\<not> is_digit c" "c \<noteq> CHR ''.''" "c \<noteq> CHR ''e''" "c \<noteq> CHR ''E''"
  shows "parse_number ((if neg then ''-'' else []) @ ip @ CHR ''.'' # fd @ c # r) =
           Some (normalize_dec (if neg then - int (digits_value (ip @ fd))
                                else int (digits_value (ip @ fd))) (length fd), c # r)"
proof -
  from ip have h: "hd ip \<noteq> CHR ''-''"
    by (cases ip) (auto simp: is_digit_def)
  show ?thesis
    using ip(1) h fd(1)
    by (simp add: parse_number_def read_int_part_stop [OF ip not_digit_point]
        read_fraction_stop [OF fd c(1)] read_exponent_none [OF c(3,4)])
qed

lemma normalize_dec_idem:
  "normalize_dec m k = Decimal m' k' \<Longrightarrow> normalize_dec m' k' = Decimal m' k'"
  by (induction m k rule: normalize_dec.induct) (auto split: if_splits)

lemma normalize_idem: "normalize_number (normalize_number x) = normalize_number x"
proof (cases x)
  case (Decimal m k)
  obtain m' k' where n: "normalize_dec m k = Decimal m' k'"
    by (cases "normalize_dec m k") auto
  from normalize_dec_idem [OF n] n Decimal show ?thesis by simp
qed

lemma zeros_all_digit: "list_all is_digit (replicate z CHR ''0'')"
  by (induction z) (simp_all add: is_digit_def)

lemma parse_number_toString:
  assumes c: "\<not> is_digit c" "c \<noteq> CHR ''.''" "c \<noteq> CHR ''e''" "c \<noteq> CHR ''E''"
  shows "parse_number (number_toString x @ c # r) = Some (normalize_number x, c # r)"
proof -
  obtain m k where n: "normalize_number x = Decimal m k"
    by (cases "normalize_number x") auto
  have nf: "normalize_dec m k = Decimal m k"
    using normalize_idem [of x] n by simp
  define a where "a = nat \<bar>m\<bar>"
  have sign: "m < 0 \<Longrightarrow> - int a = m" "\<not> m < 0 \<Longrightarrow> int a = m"
    by (simp_all add: a_def)
  show ?thesis
  proof (cases "k = 0")
    case True
    have ip: "digits a \<noteq> []" "list_all is_digit (digits a)"
      "hd (digits a) = CHR ''0'' \<longrightarrow> digits a = ''0''"
      by (simp_all add: digits_nonempty digits_all_digit hd_digits_zero digits_zero)
    have "number_toString x @ c # r = (if m < 0 then ''-'' else []) @ digits a @ c # r"
      using n True by (simp add: number_toString_def a_def)
    then show ?thesis
      using parse_number_integer [OF ip c, of "m < 0" r] sign n True
      by (simp add: digits_value_digits)
  next
    case False
    define q where "q = a div 10 ^ k"
    define f where "f = a mod 10 ^ k"
    define fd where "fd = replicate (k - length (digits f)) CHR ''0'' @ digits f"
    have ip: "digits q \<noteq> []" "list_all is_digit (digits q)"
      "hd (digits q) = CHR ''0'' \<longrightarrow> digits q = ''0''"
      by (simp_all add: digits_nonempty digits_all_digit hd_digits_zero digits_zero)
    have "f < 10 ^ k" by (simp add: f_def)
    with False have lf: "length (digits f) \<le> k"
      by (simp add: length_digits)
    then have len: "length fd = k" by (simp add: fd_def)
    have fd: "fd \<noteq> []" "list_all is_digit fd"
      using digits_nonempty [of f]
      by (simp_all add: fd_def digits_all_digit zeros_all_digit)
    have "digits_value fd = f"
      unfolding fd_def digits_value_append [of "replicate (k - length (digits f)) CHR ''0''" "digits f"]
      by (simp add: digits_value_zeros digits_value_digits)
    then have val: "digits_value (digits q @ fd) = a"
      using div_mult_mod_eq [of a "10 ^ k"]
      by (simp add: digits_value_append digits_value_digits len q_def f_def)
    have "number_toString x @ c # r =
        (if m < 0 then ''-'' else []) @ digits q @ CHR ''.'' # fd @ c # r"
      using n False by (simp add: number_toString_def a_def q_def f_def fd_def)
    then show ?thesis
      using parse_number_fraction [OF ip fd c, of "m < 0" r] sign n nf
      by (simp add: val len)
  qed
qed

section \<open>Properties of the string notation\<close>

lemma hex_value_hex_digit_all: "\<forall>d \<in> set [0..<16]. hex_value (hex_digit d) = Some d"
  by (simp add: upt_rec hex_digit_def hex_value_def is_digit_def)

lemma hex_value_hex_digit: "d < 16 \<Longrightarrow> hex_value (hex_digit d) = Some d"
  using hex_value_hex_digit_all by simp

lemma hex4_control:
  "n < 256 \<Longrightarrow> hex4 CHR ''0'' CHR ''0'' (hex_digit (n div 16)) (hex_digit (n mod 16)) = Some n"
proof -
  assume "n < 256"
  then have "n div 16 < 16" by simp
  then have a: "hex_value (hex_digit (n div 16)) = Some (n div 16)"
    by (rule hex_value_hex_digit)
  have b: "hex_value (hex_digit (n mod 16)) = Some (n mod 16)"
    by (rule hex_value_hex_digit) simp
  have z: "hex_value CHR ''0'' = Some 0"
    by (simp add: hex_value_def is_digit_def)
  show ?thesis
    by (simp add: hex4_def a b z)
qed

lemma parse_quote_char:
  "parse_string_chars (quote_char c @ t) = cons_parsed c (parse_string_chars t)"
proof -
  consider "c = dquote" | "c = backslash" | "c = CHR 0x08" | "c = CHR 0x0C" | "c = CHR 0x0A"
    | "c = CHR 0x0D" | "c = CHR 0x09"
    | "c \<notin> {dquote, backslash, CHR 0x08, CHR 0x0C, CHR 0x0A, CHR 0x0D, CHR 0x09}"
      "(of_char c :: nat) < 32"
    | "c \<notin> {dquote, backslash, CHR 0x08, CHR 0x0C, CHR 0x0A, CHR 0x0D, CHR 0x09}"
      "\<not> (of_char c :: nat) < 32"
    by blast
  then show ?thesis
  proof cases
    case 8
    then have n: "(of_char c :: nat) < 256" by simp
    from 8 show ?thesis
      by (simp add: quote_char_def hex4_control [OF n])
  next
    case 9
    then show ?thesis
      by (simp add: quote_char_def)
  qed (simp_all add: quote_char_def unescape_def)
qed

lemma parse_quoted_chars:
  "parse_string_chars (concat (map quote_char s) @ dquote # rest) = Parsed s rest"
  by (induction s) (simp_all add: parse_quote_char cons_parsed_def)

lemma quote_Cons: "quote s @ rest = dquote # concat (map quote_char s) @ dquote # rest"
  by (simp add: quote_def)

section \<open>Parsing what \<open>JSON.stringify\<close> wrote\<close>

lemma skip_ws_start: "\<not> is_json_space c \<Longrightarrow> skip_ws (c # r) = c # r"
  by (simp add: skip_ws_def)

lemma not_json_space_chars:
  "\<not> is_json_space dquote" "\<not> is_json_space CHR '':''" "\<not> is_json_space CHR '',''"
  "\<not> is_json_space CHR ''}''" "\<not> is_json_space CHR '']''" "\<not> is_json_space CHR ''{''"
  "\<not> is_json_space CHR ''[''" "\<not> is_json_space CHR ''-''"
  by (simp_all add: is_json_space_def)

lemma is_digit_not_other:
  "is_digit c \<Longrightarrow> \<not> is_json_space c \<and> c \<noteq> CHR ''['' \<and> c \<noteq> CHR ''{'' \<and> c \<noteq> dquote"
  by (auto simp: is_digit_def is_json_space_def)

lemma parse_value_string:
  "parse_value (Suc n) (quote s @ rest) = Parsed (JStr s) rest"
  by (simp add: quote_Cons skip_ws_start not_json_space_chars parse_quoted_chars)

lemma number_toString_start:
  "\<exists>c t. number_toString x = c # t \<and> (c = CHR ''-'' \<or> is_digit c)"
proof -
  obtain m k where n: "normalize_number x = Decimal m k"
    by (cases "normalize_number x") auto
  have d: "\<exists>c t. digits a = c # t \<and> is_digit c" for a
    using digits_nonempty [of a] digits_all_digit [of a] by (cases "digits a") auto
  show ?thesis
  proof (cases "m < 0")
    case True
    with n show ?thesis by (simp add: number_toString_def)
  next
    case False
    from d [of "nat \<bar>m\<bar>"] d [of "nat \<bar>m\<bar> div 10 ^ k"] False n show ?thesis
      by (auto simp: number_toString_def)
  qed
qed

lemma parse_value_number:
  assumes "\<not> is_digit c" "c \<noteq> CHR ''.''" "c \<noteq> CHR ''e''" "c \<noteq> CHR ''E''"
  shows "parse_value (Suc n) (number_toString x @ c # r) = Parsed (JNum (normalize_number x)) (c # r)"
proof -
  from number_toString_start [of x] obtain d t where
    s: "number_toString x = d # t" and d: "d = CHR ''-'' \<or> is_digit d"
    by blast
  from d have nd: "\<not> is_json_space d" "d \<noteq> CHR ''[''" "d \<noteq> CHR ''{''" "d \<noteq> dquote"
    using is_digit_not_other [of d] not_json_space_chars(8) by auto
  have "parse_number (d # t @ c # r) = Some (normalize_number x, c # r)"
    using parse_number_toString [OF assms, of x r] s by simp
  with nd d show ?thesis
    by (simp add: s skip_ws_start)
qed

lemma put_fresh: "k \<notin> fst ` set acc \<Longrightarrow> put k v acc = acc @ [(k, v)]"
  by (induction acc) auto

lemma parse_members_round:
  assumes vals: "\<And>k v m c r. (k, v) \<in> set ms \<Longrightarrow> c = CHR '','' \<or> c = CHR ''}'' \<Longrightarrow>
      parse_value (Suc m) (JSON_stringify v @ c # r) = Parsed v (c # r)"
    and "ms \<noteq> []" "distinct (map fst ms)" "fst ` set ms \<inter> fst ` set acc = {}" "length ms < n"
  shows "parse_members n acc (stringify_members ms @ CHR ''}'' # rest) = Parsed (acc @ ms) rest"
  using assms
proof (induction ms arbitrary: n acc)
  case Nil
  then show ?case by simp
next
  case (Cons kv ms)
  obtain k v where kv: "kv = (k, v)" by (cases kv)
  from Cons.prems(5) obtain m where n: "n = Suc (Suc m)" "length ms \<le> m"
    by (cases n; cases "n - 1") auto
  from Cons.prems(4) kv have fresh: "k \<notin> fst ` set acc" by auto
  have val: "parse_value (Suc m) (JSON_stringify v @ c # r) = Parsed v (c # r)"
    if "c = CHR '','' \<or> c = CHR ''}''" for c r
    using Cons.prems(1) [of k v c m r] that kv by simp
  show ?case
  proof (cases "ms = []")
    case True
    then show ?thesis
      using kv n fresh val [of "CHR ''}''" rest]
      by (simp add: quote_Cons skip_ws_start not_json_space_chars parse_quoted_chars put_fresh)
  next
    case False
    have ih: "parse_members (Suc m) (acc @ [(k, v)]) (stringify_members ms @ CHR ''}'' # rest) =
        Parsed ((acc @ [(k, v)]) @ ms) rest"
    proof (rule Cons.IH [OF _ False])
      show "parse_value (Suc m') (JSON_stringify v' @ c # r) = Parsed v' (c # r)"
        if "(k', v') \<in> set ms" "c = CHR '','' \<or> c = CHR ''}''" for k' v' m' c r
        using Cons.prems(1) [of k' v' c m' r] that by simp
      show "distinct (map fst ms)" using Cons.prems(3) by simp
      show "fst ` set ms \<inter> fst ` set (acc @ [(k, v)]) = {}"
        using Cons.prems(3,4) kv by auto
      show "length ms < Suc m" using n by simp
    qed
    show ?thesis
      using kv n fresh False ih val [of "CHR '',''" "stringify_members ms @ CHR ''}'' # rest"]
      by (simp add: quote_Cons skip_ws_start not_json_space_chars parse_quoted_chars put_fresh)
  qed
qed

lemma normalize_number_integer: "normalize_number (Decimal q 0) = Decimal q 0"
  by simp

lemma not_digit_separators:
  "\<not> is_digit CHR '',''" "\<not> is_digit CHR ''}''" "\<not> is_digit CHR '']''"
  by (simp_all add: is_digit_def)

lemma parse_value_leaf:
  assumes "c = CHR '','' \<or> c = CHR ''}''"
  shows "parse_value (Suc m) (JSON_stringify (JStr s) @ c # r) = Parsed (JStr s) (c # r)"
    and "parse_value (Suc m) (JSON_stringify (JNum (normalize_number x)) @ c # r) =
           Parsed (JNum (normalize_number x)) (c # r)"
    and "parse_value (Suc m) (JSON_stringify (JNum (Decimal q 0)) @ c # r) =
           Parsed (JNum (Decimal q 0)) (c # r)"
proof -
  from assms have c: "\<not> is_digit c" "c \<noteq> CHR ''.''" "c \<noteq> CHR ''e''" "c \<noteq> CHR ''E''"
    by (auto simp: is_digit_def)
  show "parse_value (Suc m) (JSON_stringify (JStr s) @ c # r) = Parsed (JStr s) (c # r)"
    by (simp add: parse_value_string del: parse_value.simps)
  show "parse_value (Suc m) (JSON_stringify (JNum (normalize_number x)) @ c # r) =
           Parsed (JNum (normalize_number x)) (c # r)"
    using parse_value_number [OF c, of m "normalize_number x" r]
    by (simp add: normalize_idem del: parse_value.simps)
  show "parse_value (Suc m) (JSON_stringify (JNum (Decimal q 0)) @ c # r) =
           Parsed (JNum (Decimal q 0)) (c # r)"
    using parse_value_number [OF c, of m "Decimal q 0" r]
    by (simp del: parse_value.simps)
qed

lemma parse_value_item:
  assumes "8 < n"
  shows "parse_value (Suc n) (JSON_stringify (item_to_json item) @ rest) =
           Parsed (item_to_json item) rest"
proof -
  obtain ms where ms: "item_to_json item = JObj ms"
    and ms_def: "ms = [(''id'', JStr (id' item)),
           (''name'', JStr (name item)),
           (''description'', JStr (description item)),
           (''price'', JNum (normalize_number (price item))),
           (''image'', JStr (image' item)),
           (''badge'', JStr (badge item)),
           (''category'', JStr (category item)),
           (''quantity'', JNum (Decimal (quantity item) 0))]"
    by (simp add: item_to_json_def)
  have vals: "parse_value (Suc m') (JSON_stringify v @ c # r) = Parsed v (c # r)"
    if "(k, v) \<in> set ms" "c = CHR '','' \<or> c = CHR ''}''" for k v m' c r
    using that(1) parse_value_leaf [OF that(2), of m' _ r]
    unfolding ms_def by auto
  have "parse_members n [] (stringify_members ms @ CHR ''}'' # rest) = Parsed ([] @ ms) rest"
  proof (rule parse_members_round)
    show "ms \<noteq> []" "distinct (map fst ms)" "fst ` set ms \<inter> fst ` set [] = {}" "length ms < n"
      using assms by (simp_all add: ms_def)
  qed (rule vals)
  moreover have "\<exists>t. stringify_members ms = dquote # t"
    by (simp add: ms_def quote_def)
  ultimately show ?thesis
    unfolding ms
    by (auto simp add: skip_ws_start not_json_space_chars simp del: stringify_members.simps)
qed

lemma parse_elements_round:
  assumes vals: "\<And>v m r. v \<in> set vs \<Longrightarrow> F < m \<Longrightarrow>
      parse_value (Suc m) (JSON_stringify v @ r) = Parsed v r"
    and "vs \<noteq> []" "length vs + F + 1 < n"
  shows "parse_elements n acc (stringify_elements vs @ CHR '']'' # rest) = Parsed (acc @ vs) rest"
  using assms
proof (induction vs arbitrary: n acc)
  case Nil
  then show ?case by simp
next
  case (Cons v vs)
  from Cons.prems(3) obtain m where n: "n = Suc (Suc m)" "length vs + F < m"
    by (cases n; cases "n - 1") auto
  then have m: "F < m" by simp
  have val: "parse_value (Suc m) (JSON_stringify v @ r) = Parsed v r" for r
    using Cons.prems(1) [of v m r] m by simp
  show ?case
  proof (cases "vs = []")
    case True
    then show ?thesis
      using n val [of "CHR '']'' # rest"]
      by (simp add: skip_ws_start not_json_space_chars del: parse_value.simps)
  next
    case False
    have ih: "parse_elements (Suc m) (acc @ [v]) (stringify_elements vs @ CHR '']'' # rest) =
        Parsed ((acc @ [v]) @ vs) rest"
    proof (rule Cons.IH [OF _ False])
      show "parse_value (Suc m') (JSON_stringify v' @ r) = Parsed v' r"
        if "v' \<in> set vs" "F < m'" for v' m' r
        using Cons.prems(1) [of v' m' r] that by simp
      show "length vs + F + 1 < Suc m" using n by simp
    qed
    show ?thesis
      using n False ih val [of "CHR '','' # stringify_elements vs @ CHR '']'' # rest"]
      by (simp add: skip_ws_start not_json_space_chars del: parse_value.simps parse_elements.simps(2))
        (simp add: skip_ws_start not_json_space_chars del: parse_value.simps)
  qed
qed

lemma length_stringify_elements:
  "\<forall>v \<in> set vs. L \<le> length (JSON_stringify v) \<Longrightarrow> L * length vs \<le> length (stringify_elements vs)"
  by (induction vs) (auto simp: add_le_mono trans_le_add1)

lemma length_item_text: "10 \<le> length (JSON_stringify (item_to_json item))"
  by (simp add: item_to_json_def quote_def)

lemma parse_elements_cart:
  assumes "items \<noteq> []"
  shows "parse_elements (2 * length (JSON_stringify (cart_to_json items))) []
      (stringify_elements (map item_to_json items) @ CHR '']'' # []) =
        Parsed (map item_to_json items) []"
proof -
  let ?vs = "map item_to_json items"
  let ?E = "stringify_elements ?vs"
  have "\<forall>v \<in> set ?vs. 10 \<le> length (JSON_stringify v)"
    using length_item_text by simp
  then have "10 * length ?vs \<le> length ?E"
    by (rule length_stringify_elements)
  then have len: "10 * length items \<le> length ?E" by simp
  have total: "length (JSON_stringify (cart_to_json items)) = length ?E + 2"
    by (simp add: cart_to_json_def)
  from assms have pos: "0 < length items" by simp
  have "parse_elements (2 * length (JSON_stringify (cart_to_json items))) []
      (?E @ CHR '']'' # []) = Parsed ([] @ ?vs) []"
  proof (rule parse_elements_round [where F = 8])
    show "parse_value (Suc m) (JSON_stringify v @ r) = Parsed v r"
      if "v \<in> set ?vs" "8 < m" for v m r
    proof -
      from that(1) obtain item where "v = item_to_json item" by auto
      with that(2) show ?thesis by (simp only: parse_value_item)
    qed
    show "?vs \<noteq> []" using assms by simp
    show "length ?vs + 8 + 1 < 2 * length (JSON_stringify (cart_to_json items))"
      unfolding total length_map using len pos by arith
  qed
  then show ?thesis by simp
qed

lemma JSON_parse_empty_array: "JSON_parse ''[]'' = Parsed (JArr []) []"
  by code_simp

lemma JSON_parse_cart:
  "JSON_parse (JSON_stringify (cart_to_json items)) = Parsed (cart_to_json items) []"
proof (cases "items = []")
  case True
  then have "JSON_stringify (cart_to_json items) = ''[]''" "cart_to_json items = JArr []"
    by (simp_all add: cart_to_json_def)
  then show ?thesis
    by (simp only: JSON_parse_empty_array)
next
  case False
  let ?E = "stringify_elements (map item_to_json items)"
  let ?N = "2 * length (JSON_stringify (cart_to_json items))"
  from False obtain i rest where "items = i # rest" by (cases items) auto
  then obtain t where E: "?E = CHR ''{'' # t"
    by (simp add: item_to_json_def)
  have whole: "JSON_stringify (cart_to_json items) = CHR ''['' # ?E @ CHR '']'' # []"
    by (simp add: cart_to_json_def)
  have "parse_value (Suc ?N) (CHR ''['' # ?E @ CHR '']'' # []) =
      (case parse_elements ?N [] (?E @ CHR '']'' # []) of
         Parsed vs r \<Rightarrow> Parsed (JArr vs) r
       | Malformed \<Rightarrow> Malformed
       | Unmodelled \<Rightarrow> Unmodelled)"
    by (subst parse_value.simps) (simp add: E skip_ws_start not_json_space_chars)
  then have "parse_value (Suc ?N) (JSON_stringify (cart_to_json items)) =
      Parsed (cart_to_json items) []"
    by (simp only: whole [symmetric] parse_elements_cart [OF False] parsed.case
        cart_to_json_def [symmetric])
  then show ?thesis
    by (simp add: JSON_parse_def skip_ws_def)
qed

section \<open>The claims about persisting and loading the cart\<close>

lemma truthy_cart: "js_truthy (cart_to_json items)"
  by (simp add: cart_to_json_def)

lemma initial_cart_saveCart:
  "initial_cart (localStorage (saveCart w)) = Returns (cart_to_json (cart w))"
  by (simp add: initial_cart_def saveCart_def getItem_def setItem_def JSON_parse_cart
      truthy_cart)

lemma storage_productManager_addToCart:
  "localStorage (productManager_addToCart p w) =
     localStorage (saveCart (w\<lparr>cart := addToCart p (cart w)\<rparr>))"
  by (simp add: productManager_addToCart_def showToast_def saveCart_def updateCartCount_def)

lemma id_quantity_pairs_cart:
  "id_quantity_pairs (cart_to_json items) =
     map (\<lambda>item. (Some (JStr (id' item)), Some (JNum (Decimal (quantity item) 0)))) items"
  by (simp add: id_quantity_pairs_def cart_to_json_def item_to_json_def)

text \<open>
  C4. When the cart, whatever it holds, is written by \<open>saveCart\<close> and the script starts
  again, the initialiser of \<open>state.cart\<close> returns the value of the cart that was written:
  the same line items in the same order, and so the same pairs of product identifier and
  quantity. This holds in particular for the cart reached from the empty cart by any
  sequence of \<open>addToCart\<close> calls; every call of the method \<open>addToCart\<close> ends by writing the
  cart it produced.
\<close>

theorem cart_round_trip:
  "initial_cart (localStorage (saveCart w)) = Returns (cart_to_json (cart w)) \<and>
   initial_cart (localStorage (saveCart (w\<lparr>cart := addAll ps []\<rparr>))) =
     Returns (cart_to_json (addAll ps [])) \<and>
   (\<exists>v. initial_cart (localStorage (saveCart (w\<lparr>cart := addAll ps []\<rparr>))) = Returns v \<and>
        id_quantity_pairs v =
          map (\<lambda>item. (Some (JStr (id' item)), Some (JNum (Decimal (quantity item) 0))))
            (addAll ps [])) \<and>
   initial_cart (localStorage (productManager_addToCart p w)) =
     Returns (cart_to_json (cart (productManager_addToCart p w))) \<and>
   cart (productManager_addToCart p w) = addToCart p (cart w)"
  using initial_cart_saveCart [of w] initial_cart_saveCart [of "w\<lparr>cart := addAll ps []\<rparr>"]
    initial_cart_saveCart [of "w\<lparr>cart := addToCart p (cart w)\<rparr>"]
  by (simp add: id_quantity_pairs_cart storage_productManager_addToCart
      cart_productManager_addToCart)

lemma JSON_parse_falsy:
  "JSON_parse ''null'' = Parsed JNull []"
  "JSON_parse ''false'' = Parsed (JBool False) []"
  "JSON_parse ''0'' = Parsed (JNum (Decimal 0 0)) []"
  "JSON_parse [dquote, dquote] = Parsed (JStr []) []"
  by code_simp+

lemma JSON_parse_corrupted:
  "JSON_parse ''{'' = Malformed"
  "JSON_parse ''{\"id\":'' = Malformed"
  "JSON_parse ''[{\"id\":\"lp0s7njk4f\",\"quantity\":2}'' = Malformed"
  "JSON_parse ''{\"a\":1}'' = Parsed (JObj [(''a'', JNum (Decimal 1 0))]) []"
  "JSON_parse ''7'' = Parsed (JNum (Decimal 7 0)) []"
  by code_simp+

lemma initial_cart_absent_or_falsy:
  "initial_cart Map.empty = Returns (JArr [])"
  "initial_cart [''cart'' \<mapsto> ''null''] = Returns (JArr [])"
  "initial_cart [''cart'' \<mapsto> ''false''] = Returns (JArr [])"
  "initial_cart [''cart'' \<mapsto> ''0''] = Returns (JArr [])"
  "initial_cart [''cart'' \<mapsto> [dquote, dquote]] = Returns (JArr [])"
  "initial_cart [''cart'' \<mapsto> ''[]''] = Returns (JArr [])"
  by (simp_all add: initial_cart_def getItem_def JSON_parse_falsy JSON_parse_empty_array)

lemma initial_cart_underflow: "initial_cart [''cart'' \<mapsto> ''1e-400''] = Returns (JArr [])"
proof -
  have "JSON_parse ''1e-400'' = Parsed (JNum (Decimal 1 400)) []"
    by code_simp
  then show ?thesis
    by (simp add: initial_cart_def getItem_def)
qed

text \<open>
  C5. The initialiser \<open>JSON.parse(localStorage.getItem('cart')) || []\<close> falls back to the
  empty cart for an absent key and for a falsy value only. A stored text that is not
  JSON, such as \<open>{\<close> or a cart text that was cut off, makes \<open>JSON.parse\<close> throw a
  \<open>SyntaxError\<close>; nothing catches it, and since it is thrown while the script is
  evaluated, the rest of the script does not run. A stored text that is JSON but not a
  sequence of line items, such as \<open>{"a":1}\<close> or \<open>7\<close>, is taken as the cart as it is,
  instead of the empty cart.
\<close>

theorem initial_cart_corrupted_value:
  "initial_cart [''cart'' \<mapsto> ''{''] = Throws SyntaxError \<and>
   initial_cart [''cart'' \<mapsto> ''{\"id\":''] = Throws SyntaxError \<and>
   initial_cart [''cart'' \<mapsto> ''[{\"id\":\"lp0s7njk4f\",\"quantity\":2}''] = Throws SyntaxError \<and>
   initial_cart [''cart'' \<mapsto> ''{\"a\":1}''] = Returns (JObj [(''a'', JNum (Decimal 1 0))]) \<and>
   initial_cart [''cart'' \<mapsto> ''7''] = Returns (JNum (Decimal 7 0))"
  by (simp add: initial_cart_def getItem_def JSON_parse_corrupted)

end
